theory Spec2Isabelle
  imports Main "HOL-Library.Sublist"
begin

section \<open>Data model\<close>

text \<open>
  The program is \<^verbatim>\<open>index.js\<close> of maezato: it lists the repositories of a GitHub user,
  clones each one below a directory named after its relation to the user
  (\<^verbatim>\<open>fork\<close>, \<^verbatim>\<open>mine\<close>, \<^verbatim>\<open>contributing\<close>) and adds the remotes \<^verbatim>\<open>upstream\<close> and
  \<^verbatim>\<open>original\<close> to every fork.

  A repository object of the GitHub API, with the fields the program reads:
  \<^verbatim>\<open>item.name\<close>, \<^verbatim>\<open>item.ssh_url\<close>, \<^verbatim>\<open>item.fork\<close>, \<^verbatim>\<open>item.owner.login\<close>, and, in the detail
  record of a fork, \<^verbatim>\<open>item.parent\<close> and \<^verbatim>\<open>item.source\<close>, which are repository objects
  again. \<open>None\<close> is a property that is \<^verbatim>\<open>undefined\<close>.
\<close>

datatype account = Account (login: string)

datatype item = Item
  (name: string)
  (ssh_url: string)
  (fork: bool)
  (owner: account)
  (parent: "item option")
  (source: "item option")

text \<open>The options object that \<^verbatim>\<open>run\<close> stores in the module variable \<^verbatim>\<open>cmdOptions\<close>.\<close>

record options =
  token :: string
  verbose :: bool
  omitUsername :: bool
  username :: string
  cloneBaseDir :: string

text \<open>
  Errors, as far as the program tells them apart: its two \<^verbatim>\<open>catch\<close> handlers read
  \<^verbatim>\<open>error.response.body\<close>, and only the HTTP error of \<^verbatim>\<open>got\<close> (a non-success status)
  has a \<^verbatim>\<open>response\<close>. \<open>TypeError p\<close> is the error of reading property \<open>p\<close> of
  \<^verbatim>\<open>undefined\<close>.
\<close>

datatype js_error =
    ExecError string
  | HTTPError string
  | RequestError string
  | FsError string
  | TypeError string

fun response_body :: "js_error \<Rightarrow> string option" where
  "response_body (HTTPError b) = Some b"
| "response_body _ = None"

text \<open>The response object of \<^verbatim>\<open>got\<close>, of which the program reads \<^verbatim>\<open>response.body\<close>.\<close>

record 'a response =
  body :: 'a

text \<open>What the callback of \<^verbatim>\<open>child_process.exec\<close> receives: \<^verbatim>\<open>(error, stdout, stderr)\<close>.\<close>

record exec_reply =
  error :: "string option"
  stdout :: string
  stderr :: string

text \<open>Everything the program does to the outside, in the order it happens.\<close>

datatype event =
    ConsoleLog string
  | ConsoleError string
  | Mkdirp string
  | Exec string string
  | Got string

text \<open>
  The outside world answers each call; its answer may depend on everything that happened
  before (the events so far) and on the call's arguments: for \<open>exec\<close> the command and the
  working directory, for \<open>got\<close> the URL, for \<open>mkdirp\<close> the path (\<open>Some e\<close>: it throws \<open>e\<close>).
  The one \<^verbatim>\<open>got\<close> of the source is read at two types, the body of the listing call and
  the body of the detail call; \<^verbatim>\<open>gotOptions\<close> (from \<^verbatim>\<open>lib/got-config\<close>) is part of the
  world. Every subprocess and request is taken to answer.
\<close>

record world =
  exec :: "event list \<Rightarrow> string \<Rightarrow> string \<Rightarrow> exec_reply"
  got_repos :: "event list \<Rightarrow> string \<Rightarrow> js_error + item list response"
  got_repo :: "event list \<Rightarrow> string \<Rightarrow> js_error + item response"
  mkdirp :: "event list \<Rightarrow> string \<Rightarrow> js_error option"

text \<open>
  The module variable \<^verbatim>\<open>progressBar\<close> (of the \<^verbatim>\<open>progress\<close> package: a counter \<^verbatim>\<open>curr\<close>
  and its \<^verbatim>\<open>total\<close>) and the events so far.
\<close>

record progress =
  curr :: nat
  total :: nat

record state =
  progressBar :: progress
  trace :: "event list"

definition emit :: "event \<Rightarrow> state \<Rightarrow> state" where
  "emit e s = s\<lparr>trace := trace s @ [e]\<rparr>"

definition tick :: "state \<Rightarrow> state" where
  "tick s = s\<lparr>progressBar := (progressBar s)\<lparr>curr := curr (progressBar s) + 1\<rparr>\<rparr>"

text \<open>\<^verbatim>\<open>progressBar.render()\<close> redraws the bar on the terminal and changes no counter.\<close>

definition render :: "state \<Rightarrow> state" where
  "render s = s"

text \<open>\<^verbatim>\<open>if (cmdOptions.verbose) { console.log(message); }\<close>\<close>

definition verbose_log :: "options \<Rightarrow> string \<Rightarrow> state \<Rightarrow> state" where
  "verbose_log cmdOptions message s =
     (if verbose cmdOptions then emit (ConsoleLog message) s else s)"

text \<open>The messages written with \<^verbatim>\<open>console.error\<close>, and the subprocesses and requests started.\<close>

fun errors_of :: "event list \<Rightarrow> string list" where
  "errors_of [] = []"
| "errors_of (ConsoleError message # es) = message # errors_of es"
| "errors_of (e # es) = errors_of es"

fun execs_of :: "event list \<Rightarrow> (string \<times> string) list" where
  "execs_of [] = []"
| "execs_of (Exec command cwd # es) = (command, cwd) # execs_of es"
| "execs_of (e # es) = execs_of es"

fun gots_of :: "event list \<Rightarrow> string list" where
  "gots_of [] = []"
| "gots_of (Got url # es) = url # gots_of es"
| "gots_of (e # es) = gots_of es"

section \<open>Promises\<close>

text \<open>
  The program never has two promises pending at once: every asynchronous call is
  chained behind the one before. A promise is therefore modelled by what happens until it
  settles: from the state in which it is created to its outcome and the state then. A
  callback of \<^verbatim>\<open>then\<close> that throws rejects the promise \<^verbatim>\<open>then\<close> returned, so a function that
  is only called from such a callback is modelled with its \<^verbatim>\<open>throw\<close> as \<open>Rejected\<close>.
\<close>

datatype 'a outcome = Fulfilled 'a | Rejected js_error

type_synonym 'a promise = "state \<Rightarrow> 'a outcome \<times> state"

definition resolve :: "'a \<Rightarrow> 'a promise" where
  "resolve v = (\<lambda>s. (Fulfilled v, s))"

definition reject :: "js_error \<Rightarrow> 'a promise" where
  "reject e = (\<lambda>s. (Rejected e, s))"

definition then_p :: "'a promise \<Rightarrow> ('a \<Rightarrow> 'b promise) \<Rightarrow> 'b promise" where
  "then_p p f = (\<lambda>s. case p s of
      (Fulfilled v, s') \<Rightarrow> f v s'
    | (Rejected e, s') \<Rightarrow> (Rejected e, s'))"

text \<open>
  \<^verbatim>\<open>p.catch(handler)\<close> for a handler that returns nothing, as both handlers of the
  program do: the promise fulfils with the value of \<open>p\<close>, or with \<^verbatim>\<open>undefined\<close>
  (\<open>None\<close>) once the handler has run, or rejects with what the handler throws.
\<close>

definition catch_p :: "'a promise \<Rightarrow> (js_error \<Rightarrow> unit promise) \<Rightarrow> 'a option promise" where
  "catch_p p handler = (\<lambda>s. case p s of
      (Fulfilled v, s') \<Rightarrow> (Fulfilled (Some v), s')
    | (Rejected e, s') \<Rightarrow> (case handler e s' of
          (Fulfilled u, s'') \<Rightarrow> (Fulfilled None, s'')
        | (Rejected e', s'') \<Rightarrow> (Rejected e', s'')))"

text \<open>
  The package \<^verbatim>\<open>promise-each\<close> (2.2.0): starting from a resolved promise it chains, for
  every element of the array in order, a \<^verbatim>\<open>then\<close> whose callback calls \<^verbatim>\<open>fn\<close> on the
  element. The promise it returns fulfils with \<^verbatim>\<open>undefined\<close> once the last call has
  fulfilled, and rejects as soon as one call rejects.
\<close>

definition each :: "('a \<Rightarrow> 'b promise) \<Rightarrow> 'a list \<Rightarrow> unit promise" where
  "each fn arr =
     foldl (\<lambda>prev curr. then_p prev (\<lambda>u. then_p (fn curr) (\<lambda>v. resolve ())))
           (resolve ()) arr"

section \<open>Strings and paths\<close>

definition GH_API_URL :: string where
  "GH_API_URL = ''https://api.github.com/''"

definition INDEX_NOT_FOUND :: int where
  "INDEX_NOT_FOUND = - 1"

definition dquote :: string where
  "dquote = [CHR 0x22]"

text \<open>\<^verbatim>\<open>text.indexOf(pattern)\<close>: the first position where \<open>pattern\<close> starts, or -1.\<close>

fun indexOf_from :: "nat \<Rightarrow> string \<Rightarrow> string \<Rightarrow> int" where
  "indexOf_from i [] pattern = (if pattern = [] then int i else - 1)"
| "indexOf_from i (c # cs) pattern =
     (if prefix pattern (c # cs) then int i else indexOf_from (Suc i) cs pattern)"

definition indexOf :: "string \<Rightarrow> string \<Rightarrow> int" where
  "indexOf text pattern = indexOf_from 0 text pattern"

text \<open>
  \<^verbatim>\<open>path.join\<close> of Node.js on POSIX: the non-empty arguments are joined with a slash and
  the result is normalised (empty and \<^verbatim>\<open>.\<close> segments dropped, \<^verbatim>\<open>..\<close> resolved, a leading
  and a trailing slash kept).
\<close>

fun split_slash :: "string \<Rightarrow> string list" where
  "split_slash [] = [[]]"
| "split_slash (c # cs) =
     (if c = CHR ''/'' then [] # split_slash cs
      else (case split_slash cs of
              [] \<Rightarrow> [[c]]
            | seg # segs \<Rightarrow> (c # seg) # segs))"

fun join_slash :: "string list \<Rightarrow> string" where
  "join_slash [] = []"
| "join_slash [seg] = seg"
| "join_slash (seg # segs) = seg @ ''/'' @ join_slash segs"

fun normalizeString :: "bool \<Rightarrow> string list \<Rightarrow> string list \<Rightarrow> string list" where
  "normalizeString allowAboveRoot res [] = res"
| "normalizeString allowAboveRoot res (seg # segs) =
     (if seg = [] \<or> seg = ''.'' then normalizeString allowAboveRoot res segs
      else if seg = ''..'' then
        (if res \<noteq> [] \<and> last res \<noteq> ''..''
         then normalizeString allowAboveRoot (butlast res) segs
         else if allowAboveRoot
         then normalizeString allowAboveRoot (res @ [''..'']) segs
         else normalizeString allowAboveRoot res segs)
      else normalizeString allowAboveRoot (res @ [seg]) segs)"

definition normalize :: "string \<Rightarrow> string" where
  "normalize path =
     (if path = [] then ''.''
      else
        let isAbsolute = (hd path = CHR ''/'');
            trailingSeparator = (last path = CHR ''/'');
            p = join_slash (normalizeString (\<not> isAbsolute) [] (split_slash path))
        in if p = [] then (if isAbsolute then ''/'' else if trailingSeparator then ''./'' else ''.'')
           else (if isAbsolute then ''/'' else []) @ p @ (if trailingSeparator then ''/'' else []))"

definition path_join :: "string list \<Rightarrow> string" where
  "path_join args =
     (let joined = filter (\<lambda>arg. arg \<noteq> []) args
      in if joined = [] then ''.'' else normalize (join_slash joined))"

section \<open>The program\<close>

subsection \<open>parseJson\<close>

text \<open>
  \<^verbatim>\<open>JSON.parse\<close> is a parameter: it returns the value or throws. \<open>None\<close> is the
  \<^verbatim>\<open>undefined\<close> of the variable \<^verbatim>\<open>data\<close> that was never assigned. The result is \<open>Inl\<close> when
  \<^verbatim>\<open>parseJson\<close> itself throws; the second component is what it wrote to the console.
\<close>

definition parseJson ::
  "(string \<Rightarrow> string + 'v) \<Rightarrow> string \<Rightarrow> (string + 'v option) \<times> event list" where
  "parseJson JSON_parse text =
     (case JSON_parse text of
        Inr data \<Rightarrow> (Inr (Some data), [])
      | Inl err \<Rightarrow> (Inr None, [ConsoleError ('' Parsing JSON failed. '' @ err)]))"

subsection \<open>getRepos\<close>

definition getRepos :: "world \<Rightarrow> options \<Rightarrow> item list option promise" where
  "getRepos w cmdOptions = (\<lambda>s0.
     let url = GH_API_URL @ ''users/'' @ username cmdOptions @ ''/repos?type=all&per_page=100''
     in catch_p
          (then_p
             (\<lambda>s. case got_repos w (trace s) url of
                     Inr response \<Rightarrow> (Fulfilled response, emit (Got url) s)
                   | Inl e \<Rightarrow> (Rejected e, emit (Got url) s))
             (\<lambda>response. resolve (body response)))
          (\<lambda>err s.
             let s' = emit (ConsoleError '' Fetching repository list failed.'') s
             in case response_body err of
                  None \<Rightarrow> (Rejected (TypeError ''body''), s')
                | Some b \<Rightarrow> (Fulfilled (), emit (ConsoleError b) s'))
          (verbose_log cmdOptions
             (''Fetching information about all the user repositories for ''
                @ dquote @ username cmdOptions @ dquote) s0))"

subsection \<open>addRemote\<close>

definition addRemote ::
  "world \<Rightarrow> options \<Rightarrow> item \<Rightarrow> string \<Rightarrow> string \<Rightarrow> string \<Rightarrow> item promise" where
  "addRemote w cmdOptions item forkPath name' url = (\<lambda>s0.
     let command = ''git remote add '' @ name' @ '' '' @ url;
         s1 = verbose_log cmdOptions
                ('' Adding remote information, '' @ name' @ '' ==>  '' @ url) s0;
         r = exec w (trace s1) command forkPath;
         s2 = emit (Exec command forkPath) s1
     in case error r of
          Some err \<Rightarrow>
            if indexOf (stderr r) (''remote '' @ name' @ '' already exists'') = INDEX_NOT_FOUND
            then (Rejected (ExecError err),
                  emit (ConsoleError ('' Adding remote '' @ dquote @ name' @ dquote
                        @ '' failed for '' @ url)) s2)
            else (Fulfilled item, s2)
        | None \<Rightarrow> (Fulfilled item, s2))"

subsection \<open>getFork\<close>

definition getFork :: "world \<Rightarrow> options \<Rightarrow> string \<Rightarrow> string \<Rightarrow> string \<Rightarrow> item option promise" where
  "getFork w cmdOptions forkPath user repo =
     (let url = GH_API_URL @ ''repos/'' @ user @ ''/'' @ repo
      in catch_p
           (then_p
              (then_p
                 (then_p
                    (\<lambda>s. case got_repo w (trace s) url of
                            Inr response \<Rightarrow> (Fulfilled response, emit (Got url) s)
                          | Inl e \<Rightarrow> (Rejected e, emit (Got url) s))
                    (\<lambda>response s.
                       (Fulfilled (body response),
                        verbose_log cmdOptions ('' Received fork data for URL: '' @ url) s)))
                 (\<lambda>item. case parent item of
                            None \<Rightarrow> reject (TypeError ''ssh_url'')
                          | Some p \<Rightarrow> addRemote w cmdOptions item forkPath ''upstream'' (ssh_url p)))
              (\<lambda>item. case source item of
                         None \<Rightarrow> reject (TypeError ''ssh_url'')
                       | Some src \<Rightarrow> addRemote w cmdOptions item forkPath ''original'' (ssh_url src)))
           (\<lambda>err s.
              let s' = emit (ConsoleError '' Getting fork details failed.'') s
              in case response_body err of
                   None \<Rightarrow> (Rejected (TypeError ''body''), s')
                 | Some b \<Rightarrow> (Fulfilled (), emit (ConsoleError b) s')))"

subsection \<open>cloneRepo\<close>

text \<open>The constants \<^verbatim>\<open>type\<close> and \<^verbatim>\<open>clonePath\<close> of \<^verbatim>\<open>cloneRepo\<close>.\<close>

definition repoType :: "options \<Rightarrow> item \<Rightarrow> string" where
  "repoType cmdOptions item =
     (if fork item then ''fork''
      else if login (owner item) = username cmdOptions then ''mine''
      else ''contributing'')"

definition clonePath :: "options \<Rightarrow> item \<Rightarrow> string" where
  "clonePath cmdOptions item =
     (if omitUsername cmdOptions
      then path_join [cloneBaseDir cmdOptions, repoType cmdOptions item]
      else path_join [cloneBaseDir cmdOptions, username cmdOptions, repoType cmdOptions item])"

text \<open>
  The promise that \<^verbatim>\<open>cloneRepo\<close> creates around \<^verbatim>\<open>exec\<close> (\<^verbatim>\<open>git clone\<close> run in \<open>cwd\<close>), and
  the callback of the \<^verbatim>\<open>then\<close> that follows it.
\<close>

definition cloneExec :: "world \<Rightarrow> item \<Rightarrow> string \<Rightarrow> item promise" where
  "cloneExec w item cwd = (\<lambda>s.
     let command = ''git clone '' @ ssh_url item;
         r = exec w (trace s) command cwd;
         s1 = render (tick (emit (Exec command cwd) s))
     in case error r of
          Some err \<Rightarrow>
            if indexOf (stderr r) ''already exists and is not an empty directory'' = INDEX_NOT_FOUND
            then (Rejected (ExecError err),
                  emit (ConsoleError ('' Cloning failed for '' @ ssh_url item)) s1)
            else (Fulfilled item, s1)
        | None \<Rightarrow> (Fulfilled item, s1))"

definition afterClone :: "world \<Rightarrow> options \<Rightarrow> string \<Rightarrow> item \<Rightarrow> item option promise" where
  "afterClone w cmdOptions cwd data = (\<lambda>s.
     let s1 = render (tick s)
     in if fork data
        then getFork w cmdOptions (path_join [cwd, name data]) (login (owner data)) (name data) s1
        else (Fulfilled (Some data), s1))"

definition cloneRepo :: "world \<Rightarrow> options \<Rightarrow> item \<Rightarrow> item option promise" where
  "cloneRepo w cmdOptions item = (\<lambda>s0.
     let cwd = clonePath cmdOptions item
     in case mkdirp w (trace s0) cwd of
          Some e \<Rightarrow> (Rejected e, emit (Mkdirp cwd) s0)
        | None \<Rightarrow>
            then_p (cloneExec w item cwd) (afterClone w cmdOptions cwd)
              (verbose_log cmdOptions (''Cloning repository '' @ ssh_url item)
                 (emit (Mkdirp cwd) s0)))"

subsection \<open>handleRepos\<close>

text \<open>\<open>None\<close> is a \<^verbatim>\<open>list\<close> that is \<^verbatim>\<open>undefined\<close>: reading its \<^verbatim>\<open>length\<close> throws.\<close>

definition handleRepos :: "world \<Rightarrow> options \<Rightarrow> item list option \<Rightarrow> unit promise" where
  "handleRepos w cmdOptions list' = (\<lambda>s.
     case list' of
       None \<Rightarrow> (Rejected (TypeError ''length''), s)
     | Some list \<Rightarrow>
         then_p (resolve list) (each (cloneRepo w cmdOptions))
           (s\<lparr>progressBar := \<lparr>curr = 0, total = length list * 2\<rparr>\<rparr>))"

subsection \<open>run\<close>

text \<open>
  \<^verbatim>\<open>run\<close> returns nothing. It ends in one of three ways: the chain it started fulfils
  (\<open>Completed\<close>), \<^verbatim>\<open>mkdirp\<close> throws out of \<^verbatim>\<open>run\<close> (\<open>Threw\<close>), or the chain rejects, and
  since nothing handles that, the rejection is unhandled (\<open>UnhandledRejection\<close>).
\<close>

datatype run_result = Completed | Threw js_error | UnhandledRejection js_error

definition run :: "world \<Rightarrow> options \<Rightarrow> state \<Rightarrow> run_result \<times> state" where
  "run w options s0 =
     (let s1 = emit (ConsoleLog (''Cloning to a structure under '' @ dquote
                  @ cloneBaseDir options @ dquote)) s0
      in case mkdirp w (trace s1) (cloneBaseDir options) of
           Some e \<Rightarrow> (Threw e, emit (Mkdirp (cloneBaseDir options)) s1)
         | None \<Rightarrow>
            (case then_p
                    (then_p (getRepos w options) (\<lambda>data. handleRepos w options data))
                    (\<lambda>u s. (Fulfilled (), emit (ConsoleLog ''All done, thank you!'') s))
                    (emit (Mkdirp (cloneBaseDir options)) s1) of
               (Fulfilled u, s') \<Rightarrow> (Completed, s')
             | (Rejected e, s') \<Rightarrow> (UnhandledRejection e, s')))"

section \<open>The classification as the specification words it\<close>

datatype category = Mine | Fork | Contributing

definition classify :: "bool \<Rightarrow> bool \<Rightarrow> category" where
  "classify isFork ownerIsActingUser =
     (if isFork then Fork else if ownerIsActingUser then Mine else Contributing)"

fun pathFragment :: "category \<Rightarrow> string" where
  "pathFragment Mine = ''mine''"
| "pathFragment Fork = ''fork''"
| "pathFragment Contributing = ''contributing''"

section \<open>Path segments\<close>

text \<open>
  A plain segment is a directory name that \<^verbatim>\<open>path.join\<close> keeps as it is: not empty, not
  \<^verbatim>\<open>.\<close> or \<^verbatim>\<open>..\<close>, and without a slash. An absolute normalised path, as
  \<^verbatim>\<open>path.resolve\<close> in \<^verbatim>\<open>bin/maezato.js\<close> yields for the base directory, is a slash
  followed by plain segments joined with slashes.
\<close>

definition plain :: "string \<Rightarrow> bool" where
  "plain seg \<longleftrightarrow> seg \<noteq> [] \<and> seg \<noteq> ''.'' \<and> seg \<noteq> ''..'' \<and> CHR ''/'' \<notin> set seg"

section \<open>Concrete worlds\<close>

text \<open>
  A user \<^verbatim>\<open>u\<close> with three repositories: \<^verbatim>\<open>x\<close> is their own, \<^verbatim>\<open>z\<close> belongs to an
  organisation, \<^verbatim>\<open>y\<close> is a fork of \<^verbatim>\<open>p/y\<close>, whose network starts at \<^verbatim>\<open>root/y\<close>.
\<close>

definition opts_u :: options where
  "opts_u = \<lparr>token = ''secret'', verbose = False, omitUsername = False, username = ''u'',
             cloneBaseDir = ''/base''\<rparr>"

definition state0 :: state where
  "state0 = \<lparr>progressBar = \<lparr>curr = 0, total = 0\<rparr>, trace = []\<rparr>"

definition exec_ok :: exec_reply where
  "exec_ok = \<lparr>error = None, stdout = [], stderr = []\<rparr>"

definition exec_failed :: "string \<Rightarrow> exec_reply" where
  "exec_failed diagnostic = \<lparr>error = Some ''Command failed'', stdout = [], stderr = diagnostic\<rparr>"

definition repo_x :: item where
  "repo_x = Item ''x'' ''git@github.com:u/x.git'' False (Account ''u'') None None"

definition repo_z :: item where
  "repo_z = Item ''z'' ''git@github.com:org/z.git'' False (Account ''org'') None None"

definition repo_y :: item where
  "repo_y = Item ''y'' ''git@github.com:u/y.git'' True (Account ''u'') None None"

definition repo_y_parent :: item where
  "repo_y_parent = Item ''y'' ''git@github.com:p/y.git'' True (Account ''p'') None None"

definition repo_y_source :: item where
  "repo_y_source = Item ''y'' ''git@github.com:root/y.git'' False (Account ''root'') None None"

definition repo_y_detail :: item where
  "repo_y_detail = Item ''y'' ''git@github.com:u/y.git'' True (Account ''u'')
     (Some repo_y_parent) (Some repo_y_source)"

text \<open>The world in which every call succeeds.\<close>

definition world_ok :: world where
  "world_ok = \<lparr>exec = (\<lambda>history command cwd. exec_ok),
               got_repos = (\<lambda>history url. Inr \<lparr>body = [repo_x, repo_y]\<rparr>),
               got_repo = (\<lambda>history url. Inr \<lparr>body = repo_y_detail\<rparr>),
               mkdirp = (\<lambda>history path. None)\<rparr>"

text \<open>The world in which one command fails with the given text on \<^verbatim>\<open>stderr\<close>.\<close>

definition world_failing :: "string \<Rightarrow> string \<Rightarrow> world" where
  "world_failing command diagnostic =
     world_ok\<lparr>exec := (\<lambda>history command' cwd.
        if command' = command then exec_failed diagnostic else exec_ok)\<rparr>"

text \<open>The world in which the listing request is answered with status 404.\<close>

definition world_listing_404 :: world where
  "world_listing_404 = world_ok\<lparr>got_repos := (\<lambda>history url. Inl (HTTPError ''Not Found''))\<rparr>"

text \<open>The world in which no directory can be created.\<close>

definition world_readonly :: world where
  "world_readonly = world_ok\<lparr>mkdirp := (\<lambda>history path. Some (FsError ''EACCES''))\<rparr>"

text \<open>The world in which the listing request gets no answer at all.\<close>

definition world_offline :: world where
  "world_offline = world_ok\<lparr>got_repos := (\<lambda>history url. Inl (RequestError ''ECONNREFUSED''))\<rparr>"

text \<open>A stand-in for \<^verbatim>\<open>JSON.parse\<close> that accepts the empty object only.\<close>

definition accept_empty_object :: "string \<Rightarrow> string + unit" where
  "accept_empty_object text =
     (if text = ''{}'' then Inr () else Inl ''SyntaxError: Unexpected end of JSON input'')"

section \<open>Facts about strings and paths\<close>

lemma indexOf_from_sublist: "indexOf_from i t p = - 1 \<longleftrightarrow> \<not> sublist p t"
proof (induction i t p rule: indexOf_from.induct)
  case (1 i pattern)
  show ?case by simp
next
  case (2 i c cs pattern)
  show ?case
  proof (cases "prefix pattern (c # cs)")
    case True
    then show ?thesis by (simp add: sublist_Cons_right)
  next
    case False
    with 2 show ?thesis by (simp add: sublist_Cons_right)
  qed
qed

lemma indexOf_sublist: "indexOf t p = INDEX_NOT_FOUND \<longleftrightarrow> \<not> sublist p t"
  by (simp add: indexOf_def INDEX_NOT_FOUND_def indexOf_from_sublist)

lemma split_slash_not_Nil: "split_slash cs \<noteq> []"
  by (induction cs) (auto split: list.splits)

lemma split_slash_no_slash: "CHR ''/'' \<notin> set seg \<Longrightarrow> split_slash seg = [seg]"
  by (induction seg) (auto split: list.splits)

lemma split_slash_append:
  "CHR ''/'' \<notin> set seg \<Longrightarrow> split_slash (seg @ CHR ''/'' # rest) = seg # split_slash rest"
  by (induction seg) (auto split: list.splits)

lemma split_slash_join_slash:
  "segs \<noteq> [] \<Longrightarrow> list_all (\<lambda>seg. CHR ''/'' \<notin> set seg) segs \<Longrightarrow> split_slash (join_slash segs) = segs"
proof (induction segs rule: join_slash.induct)
  case 1
  then show ?case by simp
next
  case (2 seg)
  then show ?case by (simp add: split_slash_no_slash)
next
  case (3 seg v va)
  then show ?case by (simp add: split_slash_append)
qed

lemma normalizeString_plain:
  "list_all plain segs \<Longrightarrow> normalizeString allowAboveRoot res segs = res @ segs"
  by (induction segs arbitrary: res) (auto simp add: plain_def)

lemma join_slash_snoc:
  "segs \<noteq> [] \<Longrightarrow> join_slash (segs @ [seg]) = join_slash segs @ ''/'' @ seg"
  by (induction segs rule: join_slash.induct) auto

lemma join_slash_Nil_iff: "list_all plain segs \<Longrightarrow> join_slash segs = [] \<longleftrightarrow> segs = []"
  by (induction segs rule: join_slash.induct) (auto simp add: plain_def)

lemma last_join_slash:
  "segs \<noteq> [] \<Longrightarrow> list_all plain segs \<Longrightarrow> last (join_slash segs) \<noteq> CHR ''/''"
proof (induction segs rule: join_slash.induct)
  case 1
  then show ?case by simp
next
  case (2 seg)
  then show ?case by (cases seg rule: rev_cases) (auto simp add: plain_def)
next
  case (3 seg v va)
  then have "join_slash (v # va) \<noteq> []" by (simp add: join_slash_Nil_iff)
  with 3 show ?case by simp
qed

lemma normalize_absolute:
  assumes "segs \<noteq> []" and "list_all plain segs"
  shows "normalize (''/'' @ join_slash segs) = ''/'' @ join_slash segs"
proof -
  from assms have noslash: "list_all (\<lambda>seg. CHR ''/'' \<notin> set seg) segs"
    by (simp add: list_all_iff plain_def)
  have "split_slash (''/'' @ join_slash segs) = [] # split_slash (join_slash segs)"
    by simp
  with assms noslash have sp: "split_slash (''/'' @ join_slash segs) = [] # segs"
    by (simp add: split_slash_join_slash)
  from assms have ns: "normalizeString False [] ([] # segs) = segs"
    by (simp add: normalizeString_plain)
  from assms have ne: "join_slash segs \<noteq> []" by (simp add: join_slash_Nil_iff)
  from assms have la: "last (join_slash segs) \<noteq> CHR ''/''" by (rule last_join_slash)
  from ne la have la': "last (CHR ''/'' # join_slash segs) \<noteq> CHR ''/''" by simp
  show ?thesis
    unfolding normalize_def using sp ns ne la' by (simp add: Let_def)
qed

lemma path_join_absolute:
  assumes "segs \<noteq> []" and "list_all plain segs" and "list_all plain args"
  shows "path_join ((''/'' @ join_slash segs) # args) = ''/'' @ join_slash (segs @ args)"
proof -
  have f: "filter (\<lambda>arg. arg \<noteq> []) ((''/'' @ join_slash segs) # args) = (''/'' @ join_slash segs) # args"
    using assms(3) by (auto simp add: list_all_iff plain_def filter_id_conv)
  have j: "join_slash ((''/'' @ join_slash segs) # args) = ''/'' @ join_slash (segs @ args)"
    using assms(1)
  proof (induction args rule: rev_induct)
    case Nil
    then show ?case by simp
  next
    case (snoc x xs)
    then show ?case
      using join_slash_snoc [of "(''/'' @ join_slash segs) # xs" x]
            join_slash_snoc [of "segs @ xs" x]
      by simp
  qed
  from assms have "normalize (''/'' @ join_slash (segs @ args)) = ''/'' @ join_slash (segs @ args)"
    by (intro normalize_absolute) simp_all
  with f j show ?thesis by (simp add: path_join_def Let_def)
qed

lemma path_join_absolute1:
  assumes "segs \<noteq> []" and "list_all plain segs" and "plain a"
  shows "path_join [''/'' @ join_slash segs, a] = ''/'' @ join_slash segs @ ''/'' @ a"
  using path_join_absolute [OF assms(1,2), of "[a]"] assms join_slash_snoc [of segs a] by simp

lemma path_join_absolute2:
  assumes "segs \<noteq> []" and "list_all plain segs" and "plain a" and "plain b"
  shows "path_join [''/'' @ join_slash segs, a, b] = ''/'' @ join_slash segs @ ''/'' @ a @ ''/'' @ b"
  using path_join_absolute [OF assms(1,2), of "[a, b]"] assms
    join_slash_snoc [of "segs @ [a]" b] join_slash_snoc [of segs a] by simp

lemma plain_repoType: "plain (repoType cmdOptions item)"
  by (simp add: repoType_def plain_def)


section \<open>Facts about the state and about promises\<close>

lemma trace_emit [simp]: "trace (emit e s) = trace s @ [e]"
  by (simp add: emit_def)

lemma progressBar_emit [simp]: "progressBar (emit e s) = progressBar s"
  by (simp add: emit_def)

lemma trace_tick [simp]: "trace (tick s) = trace s"
  by (simp add: tick_def)

lemma curr_tick [simp]: "curr (progressBar (tick s)) = Suc (curr (progressBar s))"
  by (simp add: tick_def)

lemma total_tick [simp]: "total (progressBar (tick s)) = total (progressBar s)"
  by (simp add: tick_def)

lemma render_id [simp]: "render s = s"
  by (simp add: render_def)

lemma trace_verbose_log:
  "trace (verbose_log cmdOptions m s) = trace s @ (if verbose cmdOptions then [ConsoleLog m] else [])"
  by (simp add: verbose_log_def)

lemma progressBar_verbose_log [simp]: "progressBar (verbose_log cmdOptions m s) = progressBar s"
  by (simp add: verbose_log_def)

lemma errors_of_append [simp]: "errors_of (xs @ ys) = errors_of xs @ errors_of ys"
  by (induction xs rule: errors_of.induct) simp_all

lemma execs_of_append [simp]: "execs_of (xs @ ys) = execs_of xs @ execs_of ys"
  by (induction xs rule: execs_of.induct) simp_all

lemma gots_of_append [simp]: "gots_of (xs @ ys) = gots_of xs @ gots_of ys"
  by (induction xs rule: gots_of.induct) simp_all

lemma then_p_apply:
  "then_p p f s = (case p s of (Fulfilled v, s') \<Rightarrow> f v s' | (Rejected e, s') \<Rightarrow> (Rejected e, s'))"
  by (simp add: then_p_def)

lemma then_p_progressBar:
  assumes "\<And>s. progressBar (snd (p s)) = progressBar s"
    and "\<And>v s. progressBar (snd (f v s)) = progressBar s"
  shows "progressBar (snd (then_p p f s)) = progressBar s"
proof (cases "p s")
  case (Pair r s')
  from assms(1) [of s] Pair have "progressBar s' = progressBar s" by simp
  with Pair assms(2) show ?thesis
    by (cases r) (simp_all add: then_p_def)
qed

lemma catch_p_progressBar:
  assumes "\<And>s. progressBar (snd (p s)) = progressBar s"
    and "\<And>e s. progressBar (snd (h e s)) = progressBar s"
  shows "progressBar (snd (catch_p p h s)) = progressBar s"
proof (cases "p s")
  case (Pair r s')
  from assms(1) [of s] Pair have eq: "progressBar s' = progressBar s" by simp
  show ?thesis
  proof (cases r)
    case (Fulfilled v)
    with Pair eq show ?thesis by (simp add: catch_p_def)
  next
    case (Rejected e)
    from assms(2) [of e s'] eq have "progressBar (snd (h e s')) = progressBar s" by simp
    with Pair Rejected show ?thesis
      by (auto simp add: catch_p_def split: prod.splits outcome.splits)
  qed
qed

lemma then_p_trace:
  assumes "\<And>s. prefix (trace s) (trace (snd (p s)))"
    and "\<And>v s. prefix (trace s) (trace (snd (f v s)))"
  shows "prefix (trace s) (trace (snd (then_p p f s)))"
proof (cases "p s")
  case (Pair r s')
  from assms(1) [of s] Pair have le: "prefix (trace s) (trace s')" by simp
  show ?thesis
  proof (cases r)
    case (Fulfilled v)
    from le assms(2) [of s' v] have "prefix (trace s) (trace (snd (f v s')))"
      by (rule prefix_order.trans)
    with Pair Fulfilled show ?thesis by (simp add: then_p_def)
  next
    case (Rejected e)
    with Pair le show ?thesis by (simp add: then_p_def)
  qed
qed

lemma catch_p_trace:
  assumes "\<And>s. prefix (trace s) (trace (snd (p s)))"
    and "\<And>e s. prefix (trace s) (trace (snd (h e s)))"
  shows "prefix (trace s) (trace (snd (catch_p p h s)))"
proof (cases "p s")
  case (Pair r s')
  from assms(1) [of s] Pair have le: "prefix (trace s) (trace s')" by simp
  show ?thesis
  proof (cases r)
    case (Fulfilled v)
    with Pair le show ?thesis by (simp add: catch_p_def)
  next
    case (Rejected e)
    from le assms(2) [of s' e] have "prefix (trace s) (trace (snd (h e s')))"
      by (rule prefix_order.trans)
    with Pair Rejected show ?thesis
      by (auto simp add: catch_p_def split: prod.splits outcome.splits)
  qed
qed

lemma addRemote_progressBar:
  "progressBar (snd (addRemote w cmdOptions item forkPath n url s)) = progressBar s"
  by (simp add: addRemote_def Let_def split: option.splits)

lemma addRemote_trace:
  "prefix (trace s) (trace (snd (addRemote w cmdOptions item forkPath n url s)))"
  by (simp add: addRemote_def Let_def trace_verbose_log split: option.splits)

lemma getFork_progressBar:
  "progressBar (snd (getFork w cmdOptions forkPath user repo s)) = progressBar s"
  unfolding getFork_def Let_def
  by (intro catch_p_progressBar then_p_progressBar)
     (simp_all add: addRemote_progressBar reject_def split: sum.splits option.splits)

lemma getFork_trace:
  "prefix (trace s) (trace (snd (getFork w cmdOptions forkPath user repo s)))"
  unfolding getFork_def Let_def
  by (intro catch_p_trace then_p_trace)
     (simp_all add: addRemote_trace reject_def trace_verbose_log split: sum.splits option.splits)

lemma addRemote_gots:
  "gots_of (trace (snd (addRemote w cmdOptions item forkPath n url s))) = gots_of (trace s)"
  by (simp add: addRemote_def Let_def trace_verbose_log split: option.splits)

lemma addRemote_execs:
  "execs_of (trace (snd (addRemote w cmdOptions item forkPath n url s))) =
     execs_of (trace s) @ [(''git remote add '' @ n @ '' '' @ url, forkPath)]"
  by (simp add: addRemote_def Let_def trace_verbose_log split: option.splits)

lemma addRemote_Fulfilled: "addRemote w cmdOptions item forkPath n url s = (Fulfilled i, s') \<Longrightarrow> i = item"
  by (auto simp add: addRemote_def Let_def split: option.splits if_splits)

lemma getFork_gots:
  "gots_of (trace (snd (getFork w cmdOptions forkPath user repo s))) =
     gots_of (trace s) @ [GH_API_URL @ ''repos/'' @ user @ ''/'' @ repo]"
proof -
  have a: "gots_of (trace s') = gots_of (trace s0)"
    if "addRemote w cmdOptions item forkPath n url s0 = (r, s')" for item n url s0 r s'
    using addRemote_gots [of w cmdOptions item forkPath n url s0] that by simp
  show ?thesis
    by (auto simp add: getFork_def catch_p_def then_p_def reject_def Let_def trace_verbose_log
             split: sum.splits option.splits prod.splits outcome.splits dest!: a)
qed

lemma getFork_unfold:
  "getFork w cmdOptions forkPath user repo s =
     (let url = GH_API_URL @ ''repos/'' @ user @ ''/'' @ repo;
          handler = (\<lambda>err s.
             let s' = emit (ConsoleError '' Getting fork details failed.'') s
             in case response_body err of
                  None \<Rightarrow> (Rejected (TypeError ''body''), s')
                | Some b \<Rightarrow> (Fulfilled None, emit (ConsoleError b) s'))
      in case got_repo w (trace s) url of
           Inl e \<Rightarrow> handler e (emit (Got url) s)
         | Inr response \<Rightarrow>
             let s1 = verbose_log cmdOptions ('' Received fork data for URL: '' @ url)
                        (emit (Got url) s)
             in (case parent (body response) of
                  None \<Rightarrow> handler (TypeError ''ssh_url'') s1
                | Some p \<Rightarrow>
                   (case addRemote w cmdOptions (body response) forkPath ''upstream'' (ssh_url p) s1 of
                      (Rejected e, s2) \<Rightarrow> handler e s2
                    | (Fulfilled i, s2) \<Rightarrow>
                       (case source i of
                          None \<Rightarrow> handler (TypeError ''ssh_url'') s2
                        | Some src \<Rightarrow>
                           (case addRemote w cmdOptions i forkPath ''original'' (ssh_url src) s2 of
                              (Rejected e, s3) \<Rightarrow> handler e s3
                            | (Fulfilled i', s3) \<Rightarrow> (Fulfilled (Some i'), s3))))))"
  by (simp add: getFork_def catch_p_def then_p_def reject_def Let_def
        split: sum.splits option.splits prod.splits outcome.splits)

lemma getFork_execs_cwd:
  "\<exists>xs. execs_of (trace (snd (getFork w cmdOptions forkPath user repo s))) = execs_of (trace s) @ xs
        \<and> (\<forall>x \<in> set xs. snd x = forkPath)"
proof -
  have a: "execs_of (trace s') = execs_of (trace s0) @ [(''git remote add '' @ n @ '' '' @ url, forkPath)]"
    if "addRemote w cmdOptions item forkPath n url s0 = (r, s')" for item n url s0 r s'
    using addRemote_execs [of w cmdOptions item forkPath n url s0] that by simp
  show ?thesis
    unfolding getFork_unfold
    by (auto simp add: Let_def trace_verbose_log
          split: sum.splits option.splits prod.splits outcome.splits dest!: a)
qed

lemma cloneExec_trace:
  "prefix (trace s) (trace (snd (cloneExec w item cwd s)))"
  by (simp add: cloneExec_def Let_def split: option.splits)

lemma afterClone_trace:
  "prefix (trace s) (trace (snd (afterClone w cmdOptions cwd data s)))"
  using getFork_trace [of "tick s"] by (simp add: afterClone_def Let_def)

lemma cloneRepo_trace:
  "prefix (trace s) (trace (snd (cloneRepo w cmdOptions item s)))"
proof (cases "mkdirp w (trace s) (clonePath cmdOptions item)")
  case None
  let ?s2 = "verbose_log cmdOptions (''Cloning repository '' @ ssh_url item)
               (emit (Mkdirp (clonePath cmdOptions item)) s)"
  have "prefix (trace s) (trace ?s2)" by (simp add: trace_verbose_log)
  moreover have "prefix (trace ?s2)
      (trace (snd (then_p (cloneExec w item (clonePath cmdOptions item))
                     (afterClone w cmdOptions (clonePath cmdOptions item)) ?s2)))"
    by (intro then_p_trace cloneExec_trace afterClone_trace)
  ultimately have "prefix (trace s)
      (trace (snd (then_p (cloneExec w item (clonePath cmdOptions item))
                     (afterClone w cmdOptions (clonePath cmdOptions item)) ?s2)))"
    by (rule prefix_order.trans)
  with None show ?thesis
    by (simp add: cloneRepo_def Let_def)
next
  case (Some e)
  then show ?thesis by (simp add: cloneRepo_def Let_def)
qed


lemma each_Nil: "each fn [] s = (Fulfilled (), s)"
  by (simp add: each_def resolve_def)

lemma foldl_chain:
  "foldl (\<lambda>prev curr. then_p prev (\<lambda>u. then_p (fn curr) (\<lambda>v. resolve ()))) acc xs s =
     (case acc s of
        (Rejected e, s') \<Rightarrow> (Rejected e, s')
      | (Fulfilled u, s') \<Rightarrow>
          foldl (\<lambda>prev curr. then_p prev (\<lambda>u. then_p (fn curr) (\<lambda>v. resolve ()))) (resolve ()) xs s')"
proof (induction xs arbitrary: acc s)
  case Nil
  show ?case by (simp add: resolve_def split: prod.splits outcome.splits)
next
  case (Cons x xs)
  show ?case
    apply (simp only: foldl_Cons)
    apply (subst Cons.IH)
    apply (subst (2) Cons.IH)
    apply (simp add: then_p_def resolve_def split: prod.splits outcome.splits)
    done
qed

lemma each_Cons:
  "each fn (x # xs) s =
     (case fn x s of
        (Rejected e, s') \<Rightarrow> (Rejected e, s')
      | (Fulfilled v, s') \<Rightarrow> each fn xs s')"
proof -
  let ?step = "\<lambda>prev curr. then_p prev (\<lambda>u. then_p (fn curr) (\<lambda>v. resolve ()))"
  have a: "foldl ?step (?step (resolve ()) x) xs s =
      (case ?step (resolve ()) x s of
         (Rejected e, s') \<Rightarrow> (Rejected e, s')
       | (Fulfilled u, s') \<Rightarrow> foldl ?step (resolve ()) xs s')"
    by (rule foldl_chain)
  have b: "?step (resolve ()) x s =
      (case fn x s of
         (Fulfilled v, s') \<Rightarrow> (Fulfilled (), s')
       | (Rejected e, s') \<Rightarrow> (Rejected e, s'))"
    by (simp add: then_p_def resolve_def split: prod.splits outcome.splits)
  show ?thesis
    unfolding each_def foldl_Cons a b
    by (simp split: prod.splits outcome.splits)
qed

lemma each_Cons_Rejected:
  "fn x s = (Rejected e, s') \<Longrightarrow> each fn (x # xs) s = (Rejected e, s')"
  by (simp add: each_Cons)

lemma each_Cons_Fulfilled:
  "fn x s = (Fulfilled v, s') \<Longrightarrow> each fn (x # xs) s = each fn xs s'"
  by (simp add: each_Cons)

lemma each_append_Rejected:
  "each fn ys s = (Fulfilled r, s1) \<Longrightarrow> fn x s1 = (Rejected e, s2) \<Longrightarrow>
   each fn (ys @ x # zs) s = (Rejected e, s2)"
proof (induction ys arbitrary: s)
  case Nil
  then show ?case by (simp add: each_Nil each_Cons)
next
  case (Cons y ys)
  from Cons.prems(1) obtain v s' where
    y: "fn y s = (Fulfilled v, s')" and ys: "each fn ys s' = (Fulfilled r, s1)"
    by (auto simp add: each_Cons split: prod.splits outcome.splits)
  from Cons.IH [OF ys Cons.prems(2)] y show ?case
    by (simp add: each_Cons)
qed

lemma each_Rejected_split:
  "each fn xs s = (Rejected e, s2) \<Longrightarrow>
   \<exists>ys x zs r s1. xs = ys @ x # zs \<and> each fn ys s = (Fulfilled r, s1) \<and> fn x s1 = (Rejected e, s2)"
proof (induction xs arbitrary: s)
  case Nil
  then show ?case by (simp add: each_Nil)
next
  case (Cons a xs)
  obtain ra sa where a: "fn a s = (ra, sa)" by (cases "fn a s")
  show ?case
  proof (cases ra)
    case (Rejected e')
    with a Cons.prems have "fn a s = (Rejected e, s2)" by (simp add: each_Cons)
    moreover have "each fn [] s = (Fulfilled (), s)" by (rule each_Nil)
    ultimately show ?thesis by (metis append_Nil)
  next
    case (Fulfilled v)
    with a Cons.prems have "each fn xs sa = (Rejected e, s2)"
      by (simp add: each_Cons)
    from Cons.IH [OF this] obtain ys x zs r s1 where
      xs: "xs = ys @ x # zs" and ys: "each fn ys sa = (Fulfilled r, s1)"
      and x: "fn x s1 = (Rejected e, s2)" by blast
    from a Fulfilled ys have "each fn (a # ys) s = (Fulfilled r, s1)"
      by (simp add: each_Cons)
    with xs x show ?thesis by (metis append_Cons)
  qed
qed

lemma each_trace:
  assumes "\<And>x s. prefix (trace s) (trace (snd (fn x s)))"
  shows "prefix (trace s) (trace (snd (each fn xs s)))"
proof (induction xs arbitrary: s)
  case Nil
  show ?case by (simp add: each_Nil)
next
  case (Cons x xs)
  obtain r s' where x: "fn x s = (r, s')" by (cases "fn x s")
  with assms [of s x] have le: "prefix (trace s) (trace s')" by simp
  show ?case
  proof (cases r)
    case (Rejected e)
    with x le show ?thesis by (simp add: each_Cons)
  next
    case (Fulfilled v)
    from le Cons.IH [of s'] have "prefix (trace s) (trace (snd (each fn xs s')))"
      by (rule prefix_order.trans)
    with x Fulfilled show ?thesis
      by (auto simp add: each_Cons split: prod.splits outcome.splits)
  qed
qed


section \<open>Facts about the clone of one repository\<close>

lemma cloneRepo_unfold:
  assumes "mkdirp w (trace s) (clonePath cmdOptions item) = None"
  shows "cloneRepo w cmdOptions item s =
     (let cwd = clonePath cmdOptions item;
          s2 = verbose_log cmdOptions (''Cloning repository '' @ ssh_url item) (emit (Mkdirp cwd) s);
          command = ''git clone '' @ ssh_url item;
          r = exec w (trace s2) command cwd;
          s3 = tick (emit (Exec command cwd) s2)
      in case error r of
           None \<Rightarrow> afterClone w cmdOptions cwd item s3
         | Some err \<Rightarrow>
             if sublist ''already exists and is not an empty directory'' (stderr r)
             then afterClone w cmdOptions cwd item s3
             else (Rejected (ExecError err),
                   emit (ConsoleError ('' Cloning failed for '' @ ssh_url item)) s3))"
  using assms
  by (simp add: cloneRepo_def cloneExec_def then_p_def Let_def indexOf_sublist split: option.splits)

lemma cloneExec_total: "total (progressBar (snd (cloneExec w item cwd s))) = total (progressBar s)"
  by (simp add: cloneExec_def Let_def split: option.splits)

lemma afterClone_curr:
  "curr (progressBar (snd (afterClone w cmdOptions cwd data s))) = Suc (curr (progressBar s))"
  by (simp add: afterClone_def Let_def getFork_progressBar)

lemma afterClone_total:
  "total (progressBar (snd (afterClone w cmdOptions cwd data s))) = total (progressBar s)"
  by (simp add: afterClone_def Let_def getFork_progressBar)

lemma cloneRepo_total:
  "total (progressBar (snd (cloneRepo w cmdOptions item s))) = total (progressBar s)"
  by (simp add: cloneRepo_def Let_def then_p_def cloneExec_def afterClone_total
           split: option.splits prod.splits outcome.splits)

lemma cloneRepo_Fulfilled_curr:
  assumes "cloneRepo w cmdOptions item s = (Fulfilled v, s')"
  shows "curr (progressBar s') = curr (progressBar s) + 2"
proof -
  let ?cwd = "clonePath cmdOptions item"
  let ?s2 = "verbose_log cmdOptions (''Cloning repository '' @ ssh_url item) (emit (Mkdirp ?cwd) s)"
  from assms have mk: "mkdirp w (trace s) ?cwd = None"
    by (auto simp add: cloneRepo_def Let_def split: option.splits)
  with assms have run: "then_p (cloneExec w item ?cwd) (afterClone w cmdOptions ?cwd) ?s2 = (Fulfilled v, s')"
    by (simp add: cloneRepo_def Let_def)
  then obtain d s3 where ex: "cloneExec w item ?cwd ?s2 = (Fulfilled d, s3)"
    and af: "afterClone w cmdOptions ?cwd d s3 = (Fulfilled v, s')"
    by (auto simp add: then_p_def split: prod.splits outcome.splits)
  from ex have "curr (progressBar s3) = Suc (curr (progressBar s))"
    by (auto simp add: cloneExec_def Let_def split: option.splits if_splits)
  moreover from af afterClone_curr [of w cmdOptions ?cwd d s3]
  have "curr (progressBar s') = Suc (curr (progressBar s3))" by simp
  ultimately show ?thesis by simp
qed

lemma cloneRepo_Fulfilled_visited:
  assumes "cloneRepo w cmdOptions item s = (Fulfilled v, s')"
  shows "Exec (''git clone '' @ ssh_url item) (clonePath cmdOptions item) \<in> set (trace s')"
proof -
  let ?cwd = "clonePath cmdOptions item"
  let ?s2 = "verbose_log cmdOptions (''Cloning repository '' @ ssh_url item) (emit (Mkdirp ?cwd) s)"
  from assms have mk: "mkdirp w (trace s) ?cwd = None"
    by (auto simp add: cloneRepo_def Let_def split: option.splits)
  with assms have run: "then_p (cloneExec w item ?cwd) (afterClone w cmdOptions ?cwd) ?s2 = (Fulfilled v, s')"
    by (simp add: cloneRepo_def Let_def)
  then obtain d s3 where ex: "cloneExec w item ?cwd ?s2 = (Fulfilled d, s3)"
    and af: "afterClone w cmdOptions ?cwd d s3 = (Fulfilled v, s')"
    by (auto simp add: then_p_def split: prod.splits outcome.splits)
  from ex have "Exec (''git clone '' @ ssh_url item) ?cwd \<in> set (trace s3)"
    by (auto simp add: cloneExec_def Let_def split: option.splits if_splits)
  moreover from afterClone_trace [of s3 w cmdOptions ?cwd d] af
  have "prefix (trace s3) (trace s')" by simp
  ultimately show ?thesis by (auto simp add: prefix_def)
qed

lemma each_cloneRepo_total:
  "total (progressBar (snd (each (cloneRepo w cmdOptions) xs s))) = total (progressBar s)"
proof (induction xs arbitrary: s)
  case Nil
  show ?case by (simp add: each_Nil)
next
  case (Cons x xs)
  obtain r s' where x: "cloneRepo w cmdOptions x s = (r, s')" by (cases "cloneRepo w cmdOptions x s")
  with cloneRepo_total [of w cmdOptions x s] have t: "total (progressBar s') = total (progressBar s)" by simp
  show ?case
  proof (cases r)
    case (Rejected e)
    with x t show ?thesis by (simp add: each_Cons)
  next
    case (Fulfilled v)
    from Cons.IH [of s'] t have "total (progressBar (snd (each (cloneRepo w cmdOptions) xs s'))) = total (progressBar s)"
      by simp
    with x Fulfilled show ?thesis
      by (auto simp add: each_Cons split: prod.splits outcome.splits)
  qed
qed

lemma each_cloneRepo_Fulfilled:
  assumes "each (cloneRepo w cmdOptions) xs s = (Fulfilled r, s')"
  shows "curr (progressBar s') = curr (progressBar s) + 2 * length xs
       \<and> (\<forall>item \<in> set xs. Exec (''git clone '' @ ssh_url item) (clonePath cmdOptions item) \<in> set (trace s'))"
  using assms
proof (induction xs arbitrary: s r)
  case Nil
  then show ?case by (simp add: each_Nil)
next
  case (Cons x xs)
  from Cons.prems obtain v s1 r' where
    x: "cloneRepo w cmdOptions x s = (Fulfilled v, s1)"
    and rest: "each (cloneRepo w cmdOptions) xs s1 = (Fulfilled r', s')"
    by (auto simp add: each_Cons split: prod.splits outcome.splits)
  from cloneRepo_Fulfilled_curr [OF x] have c1: "curr (progressBar s1) = curr (progressBar s) + 2" .
  from cloneRepo_Fulfilled_visited [OF x]
  have v1: "Exec (''git clone '' @ ssh_url x) (clonePath cmdOptions x) \<in> set (trace s1)" .
  from each_trace [of "cloneRepo w cmdOptions" s1 xs] cloneRepo_trace rest
  have "prefix (trace s1) (trace s')" by simp
  with v1 have v1': "Exec (''git clone '' @ ssh_url x) (clonePath cmdOptions x) \<in> set (trace s')"
    by (auto simp add: prefix_def)
  from Cons.IH [OF rest] c1 v1' show ?case by simp
qed


lemma handleRepos_Some:
  "handleRepos w cmdOptions (Some list) s =
     each (cloneRepo w cmdOptions) list (s\<lparr>progressBar := \<lparr>curr = 0, total = length list * 2\<rparr>\<rparr>)"
  by (simp add: handleRepos_def then_p_def resolve_def)

section \<open>Classification\<close>

text \<open>
  C2. The directory name that \<^verbatim>\<open>cloneRepo\<close> chooses depends on the descriptor only
  through \<^verbatim>\<open>item.fork\<close> and whether \<^verbatim>\<open>item.owner.login\<close> is the acting user: it is the
  lower-case name of the category, which is Fork when the descriptor is a fork whoever
  owns it, else Mine when the acting user owns it, else Contributing.
\<close>

theorem repoType_classify:
  "repoType cmdOptions item =
     pathFragment (classify (fork item) (login (owner item) = username cmdOptions))"
  by (simp add: repoType_def classify_def)


section \<open>Tolerated failures\<close>

text \<open>
  C7. \<^verbatim>\<open>addRemote\<close> runs \<^verbatim>\<open>git remote add name url\<close> in the clone. When the subprocess
  fails and its diagnostic text contains \<^verbatim>\<open>remote name already exists\<close>, the promise
  fulfils with the item and nothing is written to the error channel. When it fails with
  any other text, the failure is written to the error channel and the promise rejects
  with the error of the subprocess.
\<close>

theorem addRemote_tolerates_existing_remote:
  assumes "s1 = verbose_log cmdOptions ('' Adding remote information, '' @ n @ '' ==>  '' @ url) s"
    and "command = ''git remote add '' @ n @ '' '' @ url"
    and "r = exec w (trace s1) command forkPath"
  shows "(error r = Some err \<and> sublist (''remote '' @ n @ '' already exists'') (stderr r) \<longrightarrow>
            addRemote w cmdOptions item forkPath n url s = (Fulfilled item, emit (Exec command forkPath) s1)
            \<and> errors_of (trace (snd (addRemote w cmdOptions item forkPath n url s))) = errors_of (trace s))
       \<and> (error r = Some err \<and> \<not> sublist (''remote '' @ n @ '' already exists'') (stderr r) \<longrightarrow>
            addRemote w cmdOptions item forkPath n url s =
              (Rejected (ExecError err),
               emit (ConsoleError ('' Adding remote '' @ dquote @ n @ dquote @ '' failed for '' @ url))
                 (emit (Exec command forkPath) s1))
            \<and> errors_of (trace (snd (addRemote w cmdOptions item forkPath n url s))) =
                errors_of (trace s) @ ['' Adding remote '' @ dquote @ n @ dquote @ '' failed for '' @ url])"
  using assms
  by (auto simp add: addRemote_def Let_def indexOf_sublist trace_verbose_log split: option.splits)

theorem addRemote_tolerates_existing_remote_witness:
  "addRemote (world_failing ''git remote add upstream git@github.com:p/y.git''
                ''fatal: remote upstream already exists.'')
      opts_u repo_y_detail ''/base/u/fork/y'' ''upstream'' ''git@github.com:p/y.git'' state0
     = (Fulfilled repo_y_detail,
        emit (Exec ''git remote add upstream git@github.com:p/y.git'' ''/base/u/fork/y'') state0)
   \<and> addRemote (world_failing ''git remote add upstream git@github.com:p/y.git''
                ''fatal: not a git repository'')
      opts_u repo_y_detail ''/base/u/fork/y'' ''upstream'' ''git@github.com:p/y.git'' state0
     = (Rejected (ExecError ''Command failed''),
        emit (ConsoleError ('' Adding remote '' @ dquote @ ''upstream'' @ dquote
                @ '' failed for git@github.com:p/y.git''))
          (emit (Exec ''git remote add upstream git@github.com:p/y.git'' ''/base/u/fork/y'') state0))"
proof -
  let ?cmd = "''git remote add upstream git@github.com:p/y.git''"
  let ?w1 = "world_failing ?cmd ''fatal: remote upstream already exists.''"
  let ?w2 = "world_failing ?cmd ''fatal: not a git repository''"
  have v: "verbose_log opts_u m state0 = state0" for m
    by (simp add: verbose_log_def opts_u_def)
  have r1: "exec ?w1 (trace state0) ?cmd ''/base/u/fork/y'' = exec_failed ''fatal: remote upstream already exists.''"
    by (simp add: world_failing_def world_ok_def)
  have r2: "exec ?w2 (trace state0) ?cmd ''/base/u/fork/y'' = exec_failed ''fatal: not a git repository''"
    by (simp add: world_failing_def world_ok_def)
  have h1: "error (exec_failed ''fatal: remote upstream already exists.'') = Some ''Command failed''
      \<and> sublist (''remote '' @ ''upstream'' @ '' already exists'')
           (stderr (exec_failed ''fatal: remote upstream already exists.''))"
    by (simp add: exec_failed_def sublist_Cons_right)
  have h2: "error (exec_failed ''fatal: not a git repository'') = Some ''Command failed''
      \<and> \<not> sublist (''remote '' @ ''upstream'' @ '' already exists'')
           (stderr (exec_failed ''fatal: not a git repository''))"
    by (simp add: exec_failed_def sublist_Cons_right)
  from addRemote_tolerates_existing_remote
         [of state0 opts_u "''upstream''" "''git@github.com:p/y.git''" state0 ?cmd
             "exec_failed ''fatal: remote upstream already exists.''" ?w1 "''/base/u/fork/y''"
             "''Command failed''" repo_y_detail]
       v r1 h1
  have a: "addRemote ?w1 opts_u repo_y_detail ''/base/u/fork/y'' ''upstream'' ''git@github.com:p/y.git'' state0
     = (Fulfilled repo_y_detail, emit (Exec ?cmd ''/base/u/fork/y'') state0)"
    by simp
  from addRemote_tolerates_existing_remote
         [of state0 opts_u "''upstream''" "''git@github.com:p/y.git''" state0 ?cmd
             "exec_failed ''fatal: not a git repository''" ?w2 "''/base/u/fork/y''"
             "''Command failed''" repo_y_detail]
       v r2 h2
  have b: "addRemote ?w2 opts_u repo_y_detail ''/base/u/fork/y'' ''upstream'' ''git@github.com:p/y.git'' state0
     = (Rejected (ExecError ''Command failed''),
        emit (ConsoleError ('' Adding remote '' @ dquote @ ''upstream'' @ dquote
                @ '' failed for git@github.com:p/y.git''))
          (emit (Exec ?cmd ''/base/u/fork/y'') state0))"
    by simp
  from a b show ?thesis by simp
qed


text \<open>
  C4. When \<^verbatim>\<open>git clone\<close> fails and its diagnostic text contains
  \<^verbatim>\<open>already exists and is not an empty directory\<close>, the promise around the subprocess
  fulfils with the descriptor and nothing is written to the error channel; the pipeline of
  the item goes on: a descriptor that is not a fork is passed through, and for a fork
  \<^verbatim>\<open>getFork\<close> runs on the clone, so its detail record is requested.
\<close>

theorem cloneRepo_tolerates_existing_clone:
  assumes "cwd = clonePath cmdOptions item"
    and "mkdirp w (trace s) cwd = None"
    and "h = trace s @ Mkdirp cwd #
           (if verbose cmdOptions then [ConsoleLog (''Cloning repository '' @ ssh_url item)] else [])"
    and "command = ''git clone '' @ ssh_url item"
    and "r = exec w h command cwd"
    and "error r = Some err"
    and "sublist ''already exists and is not an empty directory'' (stderr r)"
  shows "(\<exists>s'. cloneExec w item cwd
               (verbose_log cmdOptions (''Cloning repository '' @ ssh_url item) (emit (Mkdirp cwd) s))
             = (Fulfilled item, s')
           \<and> trace s' = h @ [Exec command cwd]
           \<and> errors_of (trace s') = errors_of (trace s))
       \<and> (\<not> fork item \<longrightarrow>
            fst (cloneRepo w cmdOptions item s) = Fulfilled (Some item)
            \<and> trace (snd (cloneRepo w cmdOptions item s)) = h @ [Exec command cwd])
       \<and> (fork item \<longrightarrow>
            (\<exists>s'. trace s' = h @ [Exec command cwd]
              \<and> cloneRepo w cmdOptions item s =
                  getFork w cmdOptions (path_join [cwd, name item]) (login (owner item)) (name item) s')
            \<and> gots_of (trace (snd (cloneRepo w cmdOptions item s))) =
                gots_of (trace s) @ [GH_API_URL @ ''repos/'' @ login (owner item) @ ''/'' @ name item])"
proof -
  let ?s2 = "verbose_log cmdOptions (''Cloning repository '' @ ssh_url item) (emit (Mkdirp cwd) s)"
  let ?s3 = "tick (emit (Exec command cwd) ?s2)"
  have h: "trace ?s2 = h" using assms(3) by (simp add: trace_verbose_log)
  have c: "cloneRepo w cmdOptions item s = afterClone w cmdOptions cwd item ?s3"
    using assms h cloneRepo_unfold [of w s cmdOptions item] by (simp add: Let_def)
  have t3: "trace (tick ?s3) = h @ [Exec command cwd]" using h by simp
  have 1: "cloneExec w item cwd ?s2 = (Fulfilled item, ?s3) \<and> trace ?s3 = h @ [Exec command cwd]
      \<and> errors_of (trace ?s3) = errors_of (trace s)"
    using assms h by (simp add: cloneExec_def Let_def indexOf_sublist)
  have 2: "\<not> fork item \<longrightarrow> fst (cloneRepo w cmdOptions item s) = Fulfilled (Some item)
            \<and> trace (snd (cloneRepo w cmdOptions item s)) = h @ [Exec command cwd]"
    using c h by (simp add: afterClone_def Let_def)
  have 3: "fork item \<longrightarrow>
            (\<exists>s'. trace s' = h @ [Exec command cwd]
              \<and> cloneRepo w cmdOptions item s =
                  getFork w cmdOptions (path_join [cwd, name item]) (login (owner item)) (name item) s')
            \<and> gots_of (trace (snd (cloneRepo w cmdOptions item s))) =
                gots_of (trace s) @ [GH_API_URL @ ''repos/'' @ login (owner item) @ ''/'' @ name item]"
  proof
    assume f: "fork item"
    from c f have g: "cloneRepo w cmdOptions item s =
        getFork w cmdOptions (path_join [cwd, name item]) (login (owner item)) (name item) (tick ?s3)"
      by (simp add: afterClone_def Let_def)
    have "gots_of (trace (tick ?s3)) = gots_of (trace s)"
      using t3 assms(3) by simp
    then have gg: "gots_of (trace (snd (cloneRepo w cmdOptions item s))) =
                gots_of (trace s) @ [GH_API_URL @ ''repos/'' @ login (owner item) @ ''/'' @ name item]"
      unfolding g getFork_gots by simp
    from t3 g have "\<exists>s'. trace s' = h @ [Exec command cwd]
              \<and> cloneRepo w cmdOptions item s =
                  getFork w cmdOptions (path_join [cwd, name item]) (login (owner item)) (name item) s'"
      by blast
    with gg show "(\<exists>s'. trace s' = h @ [Exec command cwd]
              \<and> cloneRepo w cmdOptions item s =
                  getFork w cmdOptions (path_join [cwd, name item]) (login (owner item)) (name item) s')
            \<and> gots_of (trace (snd (cloneRepo w cmdOptions item s))) =
                gots_of (trace s) @ [GH_API_URL @ ''repos/'' @ login (owner item) @ ''/'' @ name item]"
      by blast
  qed
  from 1 2 3 show ?thesis by blast
qed

theorem cloneRepo_tolerates_existing_clone_witness:
  "fst (cloneRepo (world_failing ''git clone git@github.com:u/x.git''
          ''fatal: destination path x already exists and is not an empty directory.'')
        opts_u repo_x state0) = Fulfilled (Some repo_x)
   \<and> gots_of (trace (snd (cloneRepo (world_failing ''git clone git@github.com:u/y.git''
          ''fatal: destination path y already exists and is not an empty directory.'')
        opts_u repo_y state0))) = [''https://api.github.com/repos/u/y'']"
proof -
  let ?wx = "world_failing ''git clone git@github.com:u/x.git''
          ''fatal: destination path x already exists and is not an empty directory.''"
  let ?wy = "world_failing ''git clone git@github.com:u/y.git''
          ''fatal: destination path y already exists and is not an empty directory.''"
  have mx: "mkdirp ?wx (trace state0) (clonePath opts_u repo_x) = None"
    by (simp add: world_failing_def world_ok_def)
  have my: "mkdirp ?wy (trace state0) (clonePath opts_u repo_y) = None"
    by (simp add: world_failing_def world_ok_def)
  have ex: "error (exec ?wx (trace state0 @ Mkdirp (clonePath opts_u repo_x) #
                (if verbose opts_u then [ConsoleLog (''Cloning repository '' @ ssh_url repo_x)] else []))
              (''git clone '' @ ssh_url repo_x) (clonePath opts_u repo_x)) = Some ''Command failed''"
    by (simp add: world_failing_def world_ok_def repo_x_def exec_failed_def)
  have ey: "error (exec ?wy (trace state0 @ Mkdirp (clonePath opts_u repo_y) #
                (if verbose opts_u then [ConsoleLog (''Cloning repository '' @ ssh_url repo_y)] else []))
              (''git clone '' @ ssh_url repo_y) (clonePath opts_u repo_y)) = Some ''Command failed''"
    by (simp add: world_failing_def world_ok_def repo_y_def exec_failed_def)
  have sx: "sublist ''already exists and is not an empty directory''
      (stderr (exec ?wx (trace state0 @ Mkdirp (clonePath opts_u repo_x) #
                (if verbose opts_u then [ConsoleLog (''Cloning repository '' @ ssh_url repo_x)] else []))
              (''git clone '' @ ssh_url repo_x) (clonePath opts_u repo_x)))"
    by (simp add: world_failing_def world_ok_def repo_x_def exec_failed_def sublist_Cons_right)
  have sy: "sublist ''already exists and is not an empty directory''
      (stderr (exec ?wy (trace state0 @ Mkdirp (clonePath opts_u repo_y) #
                (if verbose opts_u then [ConsoleLog (''Cloning repository '' @ ssh_url repo_y)] else []))
              (''git clone '' @ ssh_url repo_y) (clonePath opts_u repo_y)))"
    by (simp add: world_failing_def world_ok_def repo_y_def exec_failed_def sublist_Cons_right)
  have nx: "\<not> fork repo_x" and fy: "fork repo_y"
    by (simp_all add: repo_x_def repo_y_def)
  from cloneRepo_tolerates_existing_clone [OF refl mx refl refl refl ex sx] nx
  have a: "fst (cloneRepo ?wx opts_u repo_x state0) = Fulfilled (Some repo_x)"
    by blast
  from cloneRepo_tolerates_existing_clone [OF refl my refl refl refl ey sy] fy
  have "gots_of (trace (snd (cloneRepo ?wy opts_u repo_y state0))) =
      gots_of (trace state0) @ [GH_API_URL @ ''repos/'' @ login (owner repo_y) @ ''/'' @ name repo_y]"
    by blast
  then have b: "gots_of (trace (snd (cloneRepo ?wy opts_u repo_y state0))) =
      [''https://api.github.com/repos/u/y'']"
    by (simp add: state0_def GH_API_URL_def repo_y_def)
  from a b show ?thesis by blast
qed


section \<open>The batch\<close>

text \<open>
  C1, as the program has it. \<^verbatim>\<open>handleRepos\<close> visits the descriptors one at a time, in the
  order of the list, and stops at the first failure. When the batch promise fulfils,
  every descriptor has been visited (its clone was started).
  When the promise of an item rejects after the items before it were fulfilled, the batch
  promise rejects with the error of that item, in the state that item left: the
  descriptors after it are not visited. The batch promise rejects in no other way.
\<close>

theorem handleRepos_fail_fast:
  "(\<forall>r s'. handleRepos w cmdOptions (Some list) s = (Fulfilled r, s') \<longrightarrow>
       (\<forall>item \<in> set list.
          Exec (''git clone '' @ ssh_url item) (clonePath cmdOptions item) \<in> set (trace s')))
   \<and> (\<forall>ys x zs r s1 e s2.
         list = ys @ x # zs
         \<and> each (cloneRepo w cmdOptions) ys
             (s\<lparr>progressBar := \<lparr>curr = 0, total = length list * 2\<rparr>\<rparr>) = (Fulfilled r, s1)
         \<and> cloneRepo w cmdOptions x s1 = (Rejected e, s2)
       \<longrightarrow> handleRepos w cmdOptions (Some list) s = (Rejected e, s2))
   \<and> (\<forall>e s2. handleRepos w cmdOptions (Some list) s = (Rejected e, s2) \<longrightarrow>
         (\<exists>ys x zs r s1.
            list = ys @ x # zs
            \<and> each (cloneRepo w cmdOptions) ys
                (s\<lparr>progressBar := \<lparr>curr = 0, total = length list * 2\<rparr>\<rparr>) = (Fulfilled r, s1)
            \<and> cloneRepo w cmdOptions x s1 = (Rejected e, s2)))"
proof (intro conjI allI impI)
  fix r s'
  assume f: "handleRepos w cmdOptions (Some list) s = (Fulfilled r, s')"
  from f each_cloneRepo_Fulfilled [of w cmdOptions list _ r s']
  show "\<forall>item \<in> set list.
          Exec (''git clone '' @ ssh_url item) (clonePath cmdOptions item) \<in> set (trace s')"
    unfolding handleRepos_Some by blast
next
  fix ys x zs r s1 e s2
  assume "list = ys @ x # zs
         \<and> each (cloneRepo w cmdOptions) ys
             (s\<lparr>progressBar := \<lparr>curr = 0, total = length list * 2\<rparr>\<rparr>) = (Fulfilled r, s1)
         \<and> cloneRepo w cmdOptions x s1 = (Rejected e, s2)"
  then show "handleRepos w cmdOptions (Some list) s = (Rejected e, s2)"
    unfolding handleRepos_Some using each_append_Rejected [of "cloneRepo w cmdOptions" ys _ r s1 x e s2 zs]
    by metis
next
  fix e s2
  assume "handleRepos w cmdOptions (Some list) s = (Rejected e, s2)"
  then show "\<exists>ys x zs r s1.
            list = ys @ x # zs
            \<and> each (cloneRepo w cmdOptions) ys
                (s\<lparr>progressBar := \<lparr>curr = 0, total = length list * 2\<rparr>\<rparr>) = (Fulfilled r, s1)
            \<and> cloneRepo w cmdOptions x s1 = (Rejected e, s2)"
    unfolding handleRepos_Some by (rule each_Rejected_split)
qed

theorem handleRepos_fail_fast_witness:
  "Exec (''git clone '' @ ssh_url repo_x) (clonePath opts_u repo_x)
      \<in> set (trace (snd (handleRepos world_ok opts_u (Some [repo_x, repo_y]) state0)))
   \<and> Exec (''git clone '' @ ssh_url repo_y) (clonePath opts_u repo_y)
      \<in> set (trace (snd (handleRepos world_ok opts_u (Some [repo_x, repo_y]) state0)))
   \<and> handleRepos (world_failing ''git clone git@github.com:u/x.git''
          ''fatal: Could not read from remote repository.'')
        opts_u (Some [repo_z, repo_x, repo_y]) state0 =
       (Rejected (ExecError ''Command failed''),
        \<lparr>progressBar = \<lparr>curr = 3, total = 6\<rparr>,
         trace = [Mkdirp ''/base/u/contributing'',
                  Exec ''git clone git@github.com:org/z.git'' ''/base/u/contributing'',
                  Mkdirp ''/base/u/mine'',
                  Exec ''git clone git@github.com:u/x.git'' ''/base/u/mine'',
                  ConsoleError '' Cloning failed for git@github.com:u/x.git'']\<rparr>)"
proof -
  let ?w = "world_failing ''git clone git@github.com:u/x.git''
          ''fatal: Could not read from remote repository.''"
  let ?s1 = "\<lparr>progressBar = \<lparr>curr = 2, total = 6\<rparr>,
         trace = [Mkdirp ''/base/u/contributing'',
                  Exec ''git clone git@github.com:org/z.git'' ''/base/u/contributing'']\<rparr>"
  let ?s2 = "\<lparr>progressBar = \<lparr>curr = 3, total = 6\<rparr>,
         trace = [Mkdirp ''/base/u/contributing'',
                  Exec ''git clone git@github.com:org/z.git'' ''/base/u/contributing'',
                  Mkdirp ''/base/u/mine'',
                  Exec ''git clone git@github.com:u/x.git'' ''/base/u/mine'',
                  ConsoleError '' Cloning failed for git@github.com:u/x.git'']\<rparr>"
  have ok: "handleRepos world_ok opts_u (Some [repo_x, repo_y]) state0 =
      (Fulfilled (), snd (handleRepos world_ok opts_u (Some [repo_x, repo_y]) state0))"
    by code_simp
  have l: "[repo_z, repo_x, repo_y] = [repo_z] @ repo_x # [repo_y]" by simp
  have z: "each (cloneRepo ?w opts_u) [repo_z]
             (state0\<lparr>progressBar := \<lparr>curr = 0, total = length [repo_z, repo_x, repo_y] * 2\<rparr>\<rparr>)
           = (Fulfilled (), ?s1)"
    by code_simp
  have x: "cloneRepo ?w opts_u repo_x ?s1 = (Rejected (ExecError ''Command failed''), ?s2)"
    by code_simp
  note fact = handleRepos_fail_fast [of world_ok opts_u "[repo_x, repo_y]" state0]
  note fact' = handleRepos_fail_fast [of ?w opts_u "[repo_z, repo_x, repo_y]" state0]
  from fact ok have a: "\<forall>item \<in> set [repo_x, repo_y].
      Exec (''git clone '' @ ssh_url item) (clonePath opts_u item)
        \<in> set (trace (snd (handleRepos world_ok opts_u (Some [repo_x, repo_y]) state0)))"
    by blast
  from fact' l z x have b: "handleRepos ?w opts_u (Some [repo_z, repo_x, repo_y]) state0 =
       (Rejected (ExecError ''Command failed''), ?s2)"
    by blast
  from a b show ?thesis by simp
qed

text \<open>
  C1 as stated fails: the clone of \<^verbatim>\<open>z\<close> would succeed, as the batch of \<^verbatim>\<open>z\<close> alone
  shows, but in the batch of \<^verbatim>\<open>x\<close> and \<^verbatim>\<open>z\<close> the clone of \<^verbatim>\<open>x\<close> fails, the batch promise
  rejects, and \<^verbatim>\<open>z\<close> is never visited.
\<close>

theorem handleRepos_rejects_and_stops:
  "fst (handleRepos (world_failing ''git clone git@github.com:u/x.git''
          ''fatal: Could not read from remote repository.'')
        opts_u (Some [repo_z]) state0) = Fulfilled ()
   \<and> fst (handleRepos (world_failing ''git clone git@github.com:u/x.git''
          ''fatal: Could not read from remote repository.'')
        opts_u (Some [repo_x, repo_z]) state0) = Rejected (ExecError ''Command failed'')
   \<and> trace (snd (handleRepos (world_failing ''git clone git@github.com:u/x.git''
          ''fatal: Could not read from remote repository.'')
        opts_u (Some [repo_x, repo_z]) state0)) =
       [Mkdirp ''/base/u/mine'',
        Exec ''git clone git@github.com:u/x.git'' ''/base/u/mine'',
        ConsoleError '' Cloning failed for git@github.com:u/x.git'']"
  by code_simp

text \<open>
  C9, as the program has it. When \<^verbatim>\<open>git clone\<close> fails and its diagnostic text does not
  contain \<^verbatim>\<open>already exists and is not an empty directory\<close>, the failure is written to the
  error channel and the promise of the item rejects with the error of the subprocess.
  Nothing else happens for the item: no detail record is requested and no remote is
  added. A batch that has reached this item rejects with the same error there, in the
  state the item left, so the descriptors after it are not visited.
\<close>

theorem clone_failure_ends_item_and_batch:
  assumes "cwd = clonePath cmdOptions item"
    and "mkdirp w (trace s) cwd = None"
    and "h = trace s @ Mkdirp cwd #
           (if verbose cmdOptions then [ConsoleLog (''Cloning repository '' @ ssh_url item)] else [])"
    and "command = ''git clone '' @ ssh_url item"
    and "r = exec w h command cwd"
    and "error r = Some err"
    and "\<not> sublist ''already exists and is not an empty directory'' (stderr r)"
  shows "fst (cloneRepo w cmdOptions item s) = Rejected (ExecError err)
       \<and> trace (snd (cloneRepo w cmdOptions item s)) =
           h @ [Exec command cwd, ConsoleError ('' Cloning failed for '' @ ssh_url item)]
       \<and> errors_of (trace (snd (cloneRepo w cmdOptions item s))) =
           errors_of (trace s) @ ['' Cloning failed for '' @ ssh_url item]
       \<and> gots_of (trace (snd (cloneRepo w cmdOptions item s))) = gots_of (trace s)
       \<and> execs_of (trace (snd (cloneRepo w cmdOptions item s))) = execs_of (trace s) @ [(command, cwd)]
       \<and> (\<forall>ys v s0.
             each (cloneRepo w cmdOptions) ys
               (s0\<lparr>progressBar := \<lparr>curr = 0, total = length (ys @ item # rest) * 2\<rparr>\<rparr>)
               = (Fulfilled v, s)
             \<longrightarrow> handleRepos w cmdOptions (Some (ys @ item # rest)) s0 =
                   (Rejected (ExecError err), snd (cloneRepo w cmdOptions item s)))"
proof -
  from assms(1,2) have mk: "mkdirp w (trace s) (clonePath cmdOptions item) = None" by simp
  have h: "trace (verbose_log cmdOptions (''Cloning repository '' @ ssh_url item)
             (emit (Mkdirp cwd) s)) = h"
    using assms(3) by (simp add: trace_verbose_log)
  have c: "fst (cloneRepo w cmdOptions item s) = Rejected (ExecError err)"
    and t: "trace (snd (cloneRepo w cmdOptions item s)) =
           h @ [Exec command cwd, ConsoleError ('' Cloning failed for '' @ ssh_url item)]"
    using assms(1,4,5,6,7) h cloneRepo_unfold [OF mk] by (simp_all add: Let_def)
  from t assms(3) have e: "errors_of (trace (snd (cloneRepo w cmdOptions item s))) =
           errors_of (trace s) @ ['' Cloning failed for '' @ ssh_url item]"
    and g: "gots_of (trace (snd (cloneRepo w cmdOptions item s))) = gots_of (trace s)"
    and x: "execs_of (trace (snd (cloneRepo w cmdOptions item s))) = execs_of (trace s) @ [(command, cwd)]"
    by simp_all
  have b: "handleRepos w cmdOptions (Some (ys @ item # rest)) s0 =
      (Rejected (ExecError err), snd (cloneRepo w cmdOptions item s))"
    if "each (cloneRepo w cmdOptions) ys
          (s0\<lparr>progressBar := \<lparr>curr = 0, total = length (ys @ item # rest) * 2\<rparr>\<rparr>)
          = (Fulfilled v, s)" for ys v s0
  proof -
    from c have "cloneRepo w cmdOptions item s =
        (Rejected (ExecError err), snd (cloneRepo w cmdOptions item s))"
      by (simp add: prod_eq_iff)
    from each_append_Rejected [OF that this] have
      "each (cloneRepo w cmdOptions) (ys @ item # rest)
          (s0\<lparr>progressBar := \<lparr>curr = 0, total = length (ys @ item # rest) * 2\<rparr>\<rparr>)
        = (Rejected (ExecError err), snd (cloneRepo w cmdOptions item s))" .
    then show ?thesis
      unfolding handleRepos_Some .
  qed
  from c t e g x b show ?thesis by blast
qed

theorem clone_failure_ends_item_and_batch_witness:
  "handleRepos (world_failing ''git clone git@github.com:u/y.git''
          ''fatal: Could not read from remote repository.'')
        opts_u (Some [repo_z, repo_y, repo_x]) state0 =
     (Rejected (ExecError ''Command failed''),
      \<lparr>progressBar = \<lparr>curr = 3, total = 6\<rparr>,
       trace = [Mkdirp ''/base/u/contributing'',
                Exec ''git clone git@github.com:org/z.git'' ''/base/u/contributing'',
                Mkdirp ''/base/u/fork'',
                Exec ''git clone git@github.com:u/y.git'' ''/base/u/fork'',
                ConsoleError '' Cloning failed for git@github.com:u/y.git'']\<rparr>)"
proof -
  let ?w = "world_failing ''git clone git@github.com:u/y.git''
          ''fatal: Could not read from remote repository.''"
  let ?s1 = "\<lparr>progressBar = \<lparr>curr = 2, total = 6\<rparr>,
         trace = [Mkdirp ''/base/u/contributing'',
                  Exec ''git clone git@github.com:org/z.git'' ''/base/u/contributing'']\<rparr>"
  have m: "mkdirp ?w (trace ?s1) (clonePath opts_u repo_y) = None"
    by (simp add: world_failing_def world_ok_def)
  have e: "error (exec ?w (trace ?s1 @ Mkdirp (clonePath opts_u repo_y) #
                (if verbose opts_u then [ConsoleLog (''Cloning repository '' @ ssh_url repo_y)] else []))
              (''git clone '' @ ssh_url repo_y) (clonePath opts_u repo_y)) = Some ''Command failed''"
    by (simp add: world_failing_def world_ok_def repo_y_def exec_failed_def)
  have n: "\<not> sublist ''already exists and is not an empty directory''
      (stderr (exec ?w (trace ?s1 @ Mkdirp (clonePath opts_u repo_y) #
                (if verbose opts_u then [ConsoleLog (''Cloning repository '' @ ssh_url repo_y)] else []))
              (''git clone '' @ ssh_url repo_y) (clonePath opts_u repo_y)))"
    by (simp add: world_failing_def world_ok_def repo_y_def exec_failed_def sublist_Cons_right)
  have z: "each (cloneRepo ?w opts_u) [repo_z]
             (state0\<lparr>progressBar := \<lparr>curr = 0, total = length ([repo_z] @ repo_y # [repo_x]) * 2\<rparr>\<rparr>)
           = (Fulfilled (), ?s1)"
    by code_simp
  note fact = clone_failure_ends_item_and_batch [OF refl m refl refl refl e n, of "[repo_x]"]
  from fact z have "handleRepos ?w opts_u (Some ([repo_z] @ repo_y # [repo_x])) state0 =
      (Rejected (ExecError ''Command failed''), snd (cloneRepo ?w opts_u repo_y ?s1))"
    by blast
  moreover have "snd (cloneRepo ?w opts_u repo_y ?s1) =
     (\<lparr>progressBar = \<lparr>curr = 3, total = 6\<rparr>,
       trace = [Mkdirp ''/base/u/contributing'',
                Exec ''git clone git@github.com:org/z.git'' ''/base/u/contributing'',
                Mkdirp ''/base/u/fork'',
                Exec ''git clone git@github.com:u/y.git'' ''/base/u/fork'',
                ConsoleError '' Cloning failed for git@github.com:u/y.git'']\<rparr>)"
    by code_simp
  ultimately show ?thesis by simp
qed

text \<open>
  C9 as stated fails in its last part: the clone of the fork \<^verbatim>\<open>y\<close> fails, and the
  descriptor \<^verbatim>\<open>x\<close> after it, which alone is cloned without error, is never cloned.
\<close>

theorem clone_failure_affects_later_items:
  "fst (handleRepos (world_failing ''git clone git@github.com:u/y.git''
          ''fatal: Could not read from remote repository.'')
        opts_u (Some [repo_x]) state0) = Fulfilled ()
   \<and> fst (handleRepos (world_failing ''git clone git@github.com:u/y.git''
          ''fatal: Could not read from remote repository.'')
        opts_u (Some [repo_y, repo_x]) state0) = Rejected (ExecError ''Command failed'')
   \<and> execs_of (trace (snd (handleRepos (world_failing ''git clone git@github.com:u/y.git''
          ''fatal: Could not read from remote repository.'')
        opts_u (Some [repo_y, repo_x]) state0))) = [(''git clone git@github.com:u/y.git'', ''/base/u/fork'')]"
  by code_simp

section \<open>Progress\<close>

text \<open>
  C3, as the program has it. For a batch of N descriptors the progress bar is created with
  total 2 * N, and whenever the batch promise fulfils the counter is 2 * N. An item whose
  clone succeeded or failed in the tolerated way advances the counter by two, whatever
  becomes of the fork-linking; an item whose clone failed otherwise advances it by one; an
  item whose directory could not be created does not advance it.
\<close>

theorem progress_ticks:
  assumes "cwd = clonePath cmdOptions item"
    and "h = trace s @ Mkdirp cwd #
           (if verbose cmdOptions then [ConsoleLog (''Cloning repository '' @ ssh_url item)] else [])"
    and "r = exec w h (''git clone '' @ ssh_url item) cwd"
  shows "total (progressBar (snd (handleRepos w cmdOptions (Some list) s0))) = 2 * length list
       \<and> (\<forall>v. fst (handleRepos w cmdOptions (Some list) s0) = Fulfilled v \<longrightarrow>
             curr (progressBar (snd (handleRepos w cmdOptions (Some list) s0))) = 2 * length list)
       \<and> (mkdirp w (trace s) cwd = None
            \<and> (error r = None \<or> sublist ''already exists and is not an empty directory'' (stderr r))
           \<longrightarrow> curr (progressBar (snd (cloneRepo w cmdOptions item s))) = curr (progressBar s) + 2)
       \<and> (mkdirp w (trace s) cwd = None
            \<and> error r \<noteq> None \<and> \<not> sublist ''already exists and is not an empty directory'' (stderr r)
           \<longrightarrow> curr (progressBar (snd (cloneRepo w cmdOptions item s))) = curr (progressBar s) + 1)
       \<and> (mkdirp w (trace s) cwd \<noteq> None
           \<longrightarrow> curr (progressBar (snd (cloneRepo w cmdOptions item s))) = curr (progressBar s))"
proof -
  let ?s0 = "s0\<lparr>progressBar := \<lparr>curr = 0, total = length list * 2\<rparr>\<rparr>"
  have 1: "total (progressBar (snd (handleRepos w cmdOptions (Some list) s0))) = 2 * length list"
    unfolding handleRepos_Some each_cloneRepo_total by simp
  have 2: "curr (progressBar (snd (handleRepos w cmdOptions (Some list) s0))) = 2 * length list"
    if "fst (handleRepos w cmdOptions (Some list) s0) = Fulfilled v" for v
  proof -
    from that have "each (cloneRepo w cmdOptions) list ?s0 =
        (Fulfilled v, snd (each (cloneRepo w cmdOptions) list ?s0))"
      unfolding handleRepos_Some by (simp add: prod_eq_iff)
    from each_cloneRepo_Fulfilled [OF this] show ?thesis
      unfolding handleRepos_Some by simp
  qed
  have h: "trace (verbose_log cmdOptions (''Cloning repository '' @ ssh_url item)
               (emit (Mkdirp cwd) s)) = h"
    using assms(2) by (simp add: trace_verbose_log)
  have 3: "curr (progressBar (snd (cloneRepo w cmdOptions item s))) = curr (progressBar s) + 2"
    if "mkdirp w (trace s) cwd = None"
      and "error r = None \<or> sublist ''already exists and is not an empty directory'' (stderr r)"
  proof -
    from that(1) assms(1) have mk: "mkdirp w (trace s) (clonePath cmdOptions item) = None" by simp
    from that(2) assms(1,3) h cloneRepo_unfold [OF mk] show ?thesis
      by (auto simp add: Let_def afterClone_curr split: option.splits)
  qed
  have 4: "curr (progressBar (snd (cloneRepo w cmdOptions item s))) = curr (progressBar s) + 1"
    if "mkdirp w (trace s) cwd = None" and "error r \<noteq> None"
      and "\<not> sublist ''already exists and is not an empty directory'' (stderr r)"
  proof -
    from that(1) assms(1) have mk: "mkdirp w (trace s) (clonePath cmdOptions item) = None" by simp
    from that(2,3) assms(1,3) h cloneRepo_unfold [OF mk] show ?thesis
      by (auto simp add: Let_def split: option.splits)
  qed
  have 5: "curr (progressBar (snd (cloneRepo w cmdOptions item s))) = curr (progressBar s)"
    if "mkdirp w (trace s) cwd \<noteq> None"
    using that assms(1) by (auto simp add: cloneRepo_def Let_def split: option.splits)
  from 1 2 3 4 5 show ?thesis by blast
qed

theorem progress_ticks_witness:
  "progressBar (snd (handleRepos world_ok opts_u (Some [repo_x, repo_y]) state0))
     = \<lparr>curr = 4, total = 4\<rparr>
   \<and> curr (progressBar (snd (cloneRepo world_ok opts_u repo_y state0))) = 2
   \<and> curr (progressBar (snd (cloneRepo (world_failing ''git clone git@github.com:u/y.git''
          ''fatal: Could not read from remote repository.'') opts_u repo_y state0))) = 1
   \<and> curr (progressBar (snd (cloneRepo world_readonly opts_u repo_y state0))) = 0"
proof -
  let ?w = "world_failing ''git clone git@github.com:u/y.git''
          ''fatal: Could not read from remote repository.''"
  have ok: "fst (handleRepos world_ok opts_u (Some [repo_x, repo_y]) state0) = Fulfilled ()"
    by code_simp
  have m1: "mkdirp world_ok (trace state0) (clonePath opts_u repo_y) = None"
    by (simp add: world_ok_def)
  have e1: "error (exec world_ok (trace state0 @ Mkdirp (clonePath opts_u repo_y) #
                (if verbose opts_u then [ConsoleLog (''Cloning repository '' @ ssh_url repo_y)] else []))
              (''git clone '' @ ssh_url repo_y) (clonePath opts_u repo_y)) = None"
    by (simp add: world_ok_def exec_ok_def)
  have m2: "mkdirp ?w (trace state0) (clonePath opts_u repo_y) = None"
    by (simp add: world_failing_def world_ok_def)
  have e2: "error (exec ?w (trace state0 @ Mkdirp (clonePath opts_u repo_y) #
                (if verbose opts_u then [ConsoleLog (''Cloning repository '' @ ssh_url repo_y)] else []))
              (''git clone '' @ ssh_url repo_y) (clonePath opts_u repo_y)) \<noteq> None"
    by (simp add: world_failing_def world_ok_def repo_y_def exec_failed_def)
  have n2: "\<not> sublist ''already exists and is not an empty directory''
      (stderr (exec ?w (trace state0 @ Mkdirp (clonePath opts_u repo_y) #
                (if verbose opts_u then [ConsoleLog (''Cloning repository '' @ ssh_url repo_y)] else []))
              (''git clone '' @ ssh_url repo_y) (clonePath opts_u repo_y)))"
    by (simp add: world_failing_def world_ok_def repo_y_def exec_failed_def sublist_Cons_right)
  have m3: "mkdirp world_readonly (trace state0) (clonePath opts_u repo_y) \<noteq> None"
    by (simp add: world_readonly_def world_ok_def)
  have c0: "curr (progressBar state0) = 0" by (simp add: state0_def)
  from progress_ticks [where w = world_ok and cmdOptions = opts_u and list = "[repo_x, repo_y]" and ?s0.0 = state0, OF refl refl refl] ok
  have a: "progressBar (snd (handleRepos world_ok opts_u (Some [repo_x, repo_y]) state0))
     = \<lparr>curr = 4, total = 4\<rparr>"
    by simp
  from progress_ticks [where w = world_ok and s = state0 and cmdOptions = opts_u and item = repo_y, OF refl refl refl] m1 e1 c0
  have b: "curr (progressBar (snd (cloneRepo world_ok opts_u repo_y state0))) = 2"
    by simp
  from progress_ticks [where w = "?w" and s = state0 and cmdOptions = opts_u and item = repo_y, OF refl refl refl] m2 e2 n2 c0
  have c: "curr (progressBar (snd (cloneRepo ?w opts_u repo_y state0))) = 1"
    by simp
  from progress_ticks [where w = world_readonly and s = state0 and cmdOptions = opts_u and item = repo_y, OF refl refl refl] m3 c0
  have d: "curr (progressBar (snd (cloneRepo world_readonly opts_u repo_y state0))) = 0"
    by simp
  from a b c d show ?thesis by blast
qed

text \<open>
  C3 as stated fails: a batch of one descriptor whose clone fails settles with the counter
  at 1 of 2.
\<close>

theorem progress_stops_short_of_total:
  "fst (handleRepos (world_failing ''git clone git@github.com:u/x.git''
          ''fatal: Could not read from remote repository.'')
        opts_u (Some [repo_x]) state0) = Rejected (ExecError ''Command failed'')
   \<and> progressBar (snd (handleRepos (world_failing ''git clone git@github.com:u/x.git''
          ''fatal: Could not read from remote repository.'')
        opts_u (Some [repo_x]) state0)) = \<lparr>curr = 1, total = 2\<rparr>"
  by code_simp

section \<open>Fork-linking\<close>

text \<open>
  C6. Once the detail record of a fork has arrived with its parent and its source,
  \<^verbatim>\<open>getFork\<close> runs \<^verbatim>\<open>git remote add\<close> in the clone for \<^verbatim>\<open>upstream\<close> with the clone URL
  of the parent and then for \<^verbatim>\<open>original\<close> with the clone URL of the source, in this
  order and nothing else. When the first registration is rejected the second is never
  started.
\<close>

theorem getFork_remotes_in_order:
  assumes "url = GH_API_URL @ ''repos/'' @ user @ ''/'' @ repo"
    and "got_repo w (trace s) url = Inr response"
    and "parent (body response) = Some p"
    and "source (body response) = Some src"
    and "s1 = verbose_log cmdOptions ('' Received fork data for URL: '' @ url) (emit (Got url) s)"
    and "upstream = addRemote w cmdOptions (body response) forkPath ''upstream'' (ssh_url p) s1"
  shows "(\<forall>e. fst upstream = Rejected e \<longrightarrow>
            execs_of (trace (snd (getFork w cmdOptions forkPath user repo s))) =
              execs_of (trace s) @ [(''git remote add upstream '' @ ssh_url p, forkPath)])
       \<and> (\<forall>i. fst upstream = Fulfilled i \<longrightarrow>
            execs_of (trace (snd (getFork w cmdOptions forkPath user repo s))) =
              execs_of (trace s) @ [(''git remote add upstream '' @ ssh_url p, forkPath),
                                    (''git remote add original '' @ ssh_url src, forkPath)])"
proof -
  have x1: "execs_of (trace s1) = execs_of (trace s)"
    using assms(5) by (simp add: trace_verbose_log)
  obtain r1 s2 where up: "addRemote w cmdOptions (body response) forkPath ''upstream'' (ssh_url p) s1 = (r1, s2)"
    by (cases "addRemote w cmdOptions (body response) forkPath ''upstream'' (ssh_url p) s1")
  from addRemote_execs [of w cmdOptions "body response" forkPath "''upstream''" "ssh_url p" s1] up x1
  have x2: "execs_of (trace s2) = execs_of (trace s) @ [(''git remote add upstream '' @ ssh_url p, forkPath)]"
    by simp
  obtain r2 s3 where orig: "addRemote w cmdOptions (body response) forkPath ''original'' (ssh_url src) s2 = (r2, s3)"
    by (cases "addRemote w cmdOptions (body response) forkPath ''original'' (ssh_url src) s2")
  from addRemote_execs [of w cmdOptions "body response" forkPath "''original''" "ssh_url src" s2] orig x2
  have x3: "execs_of (trace s3) = execs_of (trace s) @
      [(''git remote add upstream '' @ ssh_url p, forkPath),
       (''git remote add original '' @ ssh_url src, forkPath)]"
    by simp
  show ?thesis
  proof (cases r1)
    case (Rejected e)
    with up assms(1-5) x2 have "execs_of (trace (snd (getFork w cmdOptions forkPath user repo s))) =
              execs_of (trace s) @ [(''git remote add upstream '' @ ssh_url p, forkPath)]"
      unfolding getFork_unfold by (simp add: Let_def split: option.splits)
    with Rejected up assms(6) show ?thesis by simp
  next
    case (Fulfilled i)
    with up have i: "i = body response" by (auto dest: addRemote_Fulfilled)
    with up Fulfilled orig assms(1-5) x3
    have "execs_of (trace (snd (getFork w cmdOptions forkPath user repo s))) =
        execs_of (trace s) @
        [(''git remote add upstream '' @ ssh_url p, forkPath),
         (''git remote add original '' @ ssh_url src, forkPath)]"
      unfolding getFork_unfold by (simp add: Let_def split: option.splits outcome.splits)
    with Fulfilled up assms(6) show ?thesis by simp
  qed
qed

theorem getFork_remotes_in_order_witness:
  "execs_of (trace (snd (getFork world_ok opts_u ''/base/u/fork/y'' ''u'' ''y'' state0))) =
     [(''git remote add upstream git@github.com:p/y.git'', ''/base/u/fork/y''),
      (''git remote add original git@github.com:root/y.git'', ''/base/u/fork/y'')]
   \<and> execs_of (trace (snd (getFork
        (world_failing ''git remote add upstream git@github.com:p/y.git'' ''fatal: not a git repository'')
        opts_u ''/base/u/fork/y'' ''u'' ''y'' state0))) =
     [(''git remote add upstream git@github.com:p/y.git'', ''/base/u/fork/y'')]"
proof -
  let ?w = "world_failing ''git remote add upstream git@github.com:p/y.git'' ''fatal: not a git repository''"
  let ?url = "GH_API_URL @ ''repos/'' @ ''u'' @ ''/'' @ ''y''"
  let ?s1 = "verbose_log opts_u ('' Received fork data for URL: '' @ ?url) (emit (Got ?url) state0)"
  have g1: "got_repo world_ok (trace state0) ?url = Inr \<lparr>body = repo_y_detail\<rparr>"
    by (simp add: world_ok_def)
  have g2: "got_repo ?w (trace state0) ?url = Inr \<lparr>body = repo_y_detail\<rparr>"
    by (simp add: world_failing_def world_ok_def)
  have p: "parent (body \<lparr>body = repo_y_detail\<rparr>) = Some repo_y_parent"
    and q: "source (body \<lparr>body = repo_y_detail\<rparr>) = Some repo_y_source"
    by (simp_all add: repo_y_detail_def)
  have u1: "fst (addRemote world_ok opts_u (body \<lparr>body = repo_y_detail\<rparr>) ''/base/u/fork/y''
                  ''upstream'' (ssh_url repo_y_parent) ?s1) = Fulfilled repo_y_detail"
    by (simp add: addRemote_def Let_def world_ok_def exec_ok_def)
  have u2: "fst (addRemote ?w opts_u (body \<lparr>body = repo_y_detail\<rparr>) ''/base/u/fork/y''
                  ''upstream'' (ssh_url repo_y_parent) ?s1) = Rejected (ExecError ''Command failed'')"
    by (simp add: addRemote_def Let_def world_failing_def world_ok_def exec_failed_def
          repo_y_parent_def indexOf_def INDEX_NOT_FOUND_def)
  have e0: "execs_of (trace state0) = []" by (simp add: state0_def)
  from getFork_remotes_in_order [OF refl g1 p q refl refl] u1 e0
  have a: "execs_of (trace (snd (getFork world_ok opts_u ''/base/u/fork/y'' ''u'' ''y'' state0))) =
     [(''git remote add upstream git@github.com:p/y.git'', ''/base/u/fork/y''),
      (''git remote add original git@github.com:root/y.git'', ''/base/u/fork/y'')]"
    by (simp add: repo_y_parent_def repo_y_source_def)
  from getFork_remotes_in_order [OF refl g2 p q refl refl] u2 e0
  have b: "execs_of (trace (snd (getFork ?w opts_u ''/base/u/fork/y'' ''u'' ''y'' state0))) =
     [(''git remote add upstream git@github.com:p/y.git'', ''/base/u/fork/y'')]"
    by (simp add: repo_y_parent_def)
  from a b show ?thesis by blast
qed

section \<open>The clone target\<close>

text \<open>
  C8. The directory in which \<^verbatim>\<open>git clone\<close> runs is the join of the base directory, the
  user name unless it is omitted, and the name of the category. For an absolute,
  normalised base directory and a plain user name that is \<^verbatim>\<open>base/category\<close>, or
  \<^verbatim>\<open>base/username/category\<close>, to the letter, and the clone of a repository with a plain
  name is taken to be in \<^verbatim>\<open>name\<close> below it. \<^verbatim>\<open>cloneRepo\<close> creates the directory first; if
  that throws nothing is cloned, else \<^verbatim>\<open>git clone\<close> runs in it, and every later
  subprocess of the item runs in the clone below it.
\<close>

theorem cloneRepo_target_layout:
  assumes "cwd = clonePath cmdOptions item"
  shows "cwd = path_join ([cloneBaseDir cmdOptions]
                   @ (if omitUsername cmdOptions then [] else [username cmdOptions])
                   @ [pathFragment (classify (fork item) (login (owner item) = username cmdOptions))])
       \<and> (\<forall>segs. segs \<noteq> [] \<and> list_all plain segs \<and> cloneBaseDir cmdOptions = ''/'' @ join_slash segs
             \<and> plain (username cmdOptions) \<longrightarrow>
             cwd = (if omitUsername cmdOptions
                    then cloneBaseDir cmdOptions @ ''/'' @ repoType cmdOptions item
                    else cloneBaseDir cmdOptions @ ''/'' @ username cmdOptions @ ''/''
                           @ repoType cmdOptions item)
             \<and> (plain (name item) \<longrightarrow> path_join [cwd, name item] = cwd @ ''/'' @ name item))
       \<and> (\<forall>e. mkdirp w (trace s) cwd = Some e \<longrightarrow>
             cloneRepo w cmdOptions item s = (Rejected e, emit (Mkdirp cwd) s))
       \<and> (mkdirp w (trace s) cwd = None \<longrightarrow>
             (\<exists>rest. trace (snd (cloneRepo w cmdOptions item s)) =
                trace s @ Mkdirp cwd #
                  (if verbose cmdOptions
                   then [ConsoleLog (''Cloning repository '' @ ssh_url item)] else [])
                  @ Exec (''git clone '' @ ssh_url item) cwd # rest)
             \<and> (\<exists>xs. execs_of (trace (snd (cloneRepo w cmdOptions item s))) =
                   execs_of (trace s) @ (''git clone '' @ ssh_url item, cwd) # xs
                   \<and> (\<forall>x \<in> set xs. snd x = path_join [cwd, name item])))"
proof -
  have 1: "cwd = path_join ([cloneBaseDir cmdOptions]
                   @ (if omitUsername cmdOptions then [] else [username cmdOptions])
                   @ [pathFragment (classify (fork item) (login (owner item) = username cmdOptions))])"
    using assms by (simp add: clonePath_def repoType_def classify_def)
  have 2: "cwd = (if omitUsername cmdOptions
                    then cloneBaseDir cmdOptions @ ''/'' @ repoType cmdOptions item
                    else cloneBaseDir cmdOptions @ ''/'' @ username cmdOptions @ ''/''
                           @ repoType cmdOptions item)
             \<and> (plain (name item) \<longrightarrow> path_join [cwd, name item] = cwd @ ''/'' @ name item)"
    if "segs \<noteq> [] \<and> list_all plain segs \<and> cloneBaseDir cmdOptions = ''/'' @ join_slash segs
             \<and> plain (username cmdOptions)" for segs
  proof -
    from that have ne: "segs \<noteq> []" and pl: "list_all plain segs"
      and base: "cloneBaseDir cmdOptions = ''/'' @ join_slash segs"
      and user: "plain (username cmdOptions)" by simp_all
    let ?t = "repoType cmdOptions item"
    have t: "plain ?t" by (rule plain_repoType)
    let ?more = "(if omitUsername cmdOptions then [] else [username cmdOptions]) @ [?t]"
    have more: "list_all plain ?more" using t user by simp
    have cwd: "cwd = ''/'' @ join_slash (segs @ ?more)"
    proof (cases "omitUsername cmdOptions")
      case True
      with assms base path_join_absolute [OF ne pl, of "[?t]"] t show ?thesis
        by (simp add: clonePath_def)
    next
      case False
      with assms base path_join_absolute [OF ne pl, of "[username cmdOptions, ?t]"] t user
      show ?thesis
        by (simp add: clonePath_def)
    qed
    have a: "cwd = (if omitUsername cmdOptions
                    then cloneBaseDir cmdOptions @ ''/'' @ ?t
                    else cloneBaseDir cmdOptions @ ''/'' @ username cmdOptions @ ''/'' @ ?t)"
      using assms base path_join_absolute1 [OF ne pl t] path_join_absolute2 [OF ne pl user t]
      by (simp add: clonePath_def)
    have b: "path_join [cwd, name item] = cwd @ ''/'' @ name item" if n: "plain (name item)"
    proof -
      have "segs @ ?more \<noteq> []" and "list_all plain (segs @ ?more)"
        using pl more by simp_all
      from path_join_absolute1 [OF this n] cwd show ?thesis by simp
    qed
    from a b show ?thesis by blast
  qed
  have 3: "cloneRepo w cmdOptions item s = (Rejected e, emit (Mkdirp cwd) s)"
    if "mkdirp w (trace s) cwd = Some e" for e
    using that assms by (simp add: cloneRepo_def Let_def)
  have 4: "(\<exists>rest. trace (snd (cloneRepo w cmdOptions item s)) =
                trace s @ Mkdirp cwd #
                  (if verbose cmdOptions
                   then [ConsoleLog (''Cloning repository '' @ ssh_url item)] else [])
                  @ Exec (''git clone '' @ ssh_url item) cwd # rest)
             \<and> (\<exists>xs. execs_of (trace (snd (cloneRepo w cmdOptions item s))) =
                   execs_of (trace s) @ (''git clone '' @ ssh_url item, cwd) # xs
                   \<and> (\<forall>x \<in> set xs. snd x = path_join [cwd, name item]))"
    if mk: "mkdirp w (trace s) cwd = None"
  proof -
    let ?s2 = "verbose_log cmdOptions (''Cloning repository '' @ ssh_url item) (emit (Mkdirp cwd) s)"
    let ?s3 = "tick (emit (Exec (''git clone '' @ ssh_url item) cwd) ?s2)"
    let ?h = "trace s @ Mkdirp cwd #
                  (if verbose cmdOptions
                   then [ConsoleLog (''Cloning repository '' @ ssh_url item)] else [])"
    have t3: "trace ?s3 = ?h @ [Exec (''git clone '' @ ssh_url item) cwd]"
      by (simp add: trace_verbose_log)
    have x3: "execs_of (trace ?s3) = execs_of (trace s) @ [(''git clone '' @ ssh_url item, cwd)]"
      unfolding t3 by simp
    from mk assms have mk': "mkdirp w (trace s) (clonePath cmdOptions item) = None" by simp
    from cloneRepo_unfold [OF mk'] assms
    consider (failed) err where "cloneRepo w cmdOptions item s =
          (Rejected (ExecError err), emit (ConsoleError ('' Cloning failed for '' @ ssh_url item)) ?s3)"
      | (went_on) "cloneRepo w cmdOptions item s = afterClone w cmdOptions cwd item ?s3"
      by (auto simp add: Let_def split: option.splits if_splits)
    then show ?thesis
    proof cases
      case failed
      then show ?thesis using t3 x3 by simp
    next
      case went_on
      show ?thesis
      proof (cases "fork item")
        case False
        with went_on t3 x3 show ?thesis by (simp add: afterClone_def Let_def)
      next
        case True
        let ?g = "getFork w cmdOptions (path_join [cwd, name item]) (login (owner item)) (name item)
                    (tick ?s3)"
        from went_on True have c: "cloneRepo w cmdOptions item s = ?g"
          by (simp add: afterClone_def Let_def)
        from getFork_trace [of "tick ?s3" w cmdOptions "path_join [cwd, name item]"
                               "login (owner item)" "name item"]
        obtain rest where "trace (snd ?g) = trace (tick ?s3) @ rest"
          by (auto simp add: prefix_def)
        with t3 have a: "trace (snd ?g) = ?h @ Exec (''git clone '' @ ssh_url item) cwd # rest"
          by simp
        from getFork_execs_cwd [of w cmdOptions "path_join [cwd, name item]"
                               "login (owner item)" "name item" "tick ?s3"]
        obtain xs where "execs_of (trace (snd ?g)) = execs_of (trace (tick ?s3)) @ xs"
          and xs: "\<forall>x \<in> set xs. snd x = path_join [cwd, name item]" by blast
        with x3 have b: "execs_of (trace (snd ?g)) =
            execs_of (trace s) @ (''git clone '' @ ssh_url item, cwd) # xs"
          by simp
        from a b xs c show ?thesis by auto
      qed
    qed
  qed
  from 1 2 3 4 show ?thesis by blast
qed

theorem cloneRepo_target_layout_witness:
  "clonePath opts_u repo_y = ''/base/u/fork''
   \<and> clonePath (opts_u\<lparr>omitUsername := True\<rparr>) repo_x = ''/base/mine''
   \<and> path_join [clonePath opts_u repo_y, name repo_y] = ''/base/u/fork/y''
   \<and> cloneRepo world_readonly opts_u repo_y state0 =
       (Rejected (FsError ''EACCES''), emit (Mkdirp (clonePath opts_u repo_y)) state0)
   \<and> (\<exists>rest. trace (snd (cloneRepo world_ok opts_u repo_y state0)) =
         Mkdirp (clonePath opts_u repo_y)
           # Exec ''git clone git@github.com:u/y.git'' (clonePath opts_u repo_y) # rest)"
proof -
  let ?o = "opts_u\<lparr>omitUsername := True\<rparr>"
  have segs: "[''base''] \<noteq> [] \<and> list_all plain [''base'']
      \<and> cloneBaseDir opts_u = ''/'' @ join_slash [''base''] \<and> plain (username opts_u)"
    by (simp add: plain_def opts_u_def)
  have segs': "[''base''] \<noteq> [] \<and> list_all plain [''base'']
      \<and> cloneBaseDir ?o = ''/'' @ join_slash [''base''] \<and> plain (username ?o)"
    by (simp add: plain_def opts_u_def)
  have n: "plain (name repo_y)" by (simp add: plain_def repo_y_def)
  have m1: "mkdirp world_readonly (trace state0) (clonePath opts_u repo_y) = Some (FsError ''EACCES'')"
    by (simp add: world_readonly_def world_ok_def)
  have m2: "mkdirp world_ok (trace state0) (clonePath opts_u repo_y) = None"
    by (simp add: world_ok_def)
  note y = cloneRepo_target_layout [where cmdOptions = opts_u and item = repo_y and s = state0, OF refl]
  note x = cloneRepo_target_layout [where cmdOptions = "?o" and item = repo_x and s = state0, OF refl]
  note yB = y [of world_ok, THEN conjunct2, THEN conjunct1, rule_format, OF segs]
  note xB = x [of world_ok, THEN conjunct2, THEN conjunct1, rule_format, OF segs']
  note yC = y [of world_readonly, THEN conjunct2, THEN conjunct2, THEN conjunct1, rule_format, OF m1]
  note yD = y [of world_ok, THEN conjunct2, THEN conjunct2, THEN conjunct2, rule_format, OF m2]
  from yB have "clonePath opts_u repo_y =
          cloneBaseDir opts_u @ ''/'' @ username opts_u @ ''/'' @ repoType opts_u repo_y"
    by (simp add: opts_u_def)
  then have a: "clonePath opts_u repo_y = ''/base/u/fork''"
    by (simp add: opts_u_def repoType_def repo_y_def)
  from yB n have "path_join [clonePath opts_u repo_y, name repo_y] = clonePath opts_u repo_y @ ''/'' @ name repo_y"
    by (rule conjunct2 [THEN mp])
  with a have c: "path_join [clonePath opts_u repo_y, name repo_y] = ''/base/u/fork/y''"
    by (simp add: repo_y_def)
  from xB have "clonePath ?o repo_x = cloneBaseDir ?o @ ''/'' @ repoType ?o repo_x"
    by (simp add: opts_u_def)
  then have b: "clonePath ?o repo_x = ''/base/mine''"
    by (simp add: opts_u_def repoType_def repo_x_def)
  from yC have d: "cloneRepo world_readonly opts_u repo_y state0 =
       (Rejected (FsError ''EACCES''), emit (Mkdirp (clonePath opts_u repo_y)) state0)" .
  from yD have "\<exists>rest. trace (snd (cloneRepo world_ok opts_u repo_y state0)) =
         trace state0 @ Mkdirp (clonePath opts_u repo_y) #
           (if verbose opts_u then [ConsoleLog (''Cloning repository '' @ ssh_url repo_y)] else [])
           @ Exec (''git clone '' @ ssh_url repo_y) (clonePath opts_u repo_y) # rest"
    by (rule conjunct1)
  then have e: "\<exists>rest. trace (snd (cloneRepo world_ok opts_u repo_y state0)) =
         Mkdirp (clonePath opts_u repo_y)
           # Exec ''git clone git@github.com:u/y.git'' (clonePath opts_u repo_y) # rest"
    by (simp add: state0_def opts_u_def repo_y_def)
  from a b c d e show ?thesis by (intro conjI)
qed

section \<open>The listing\<close>

text \<open>
  C5 does not hold of the program. When the listing request is answered with status 404,
  \<^verbatim>\<open>getRepos\<close> reports it and fulfils with \<^verbatim>\<open>undefined\<close>; \<^verbatim>\<open>handleRepos\<close> then reads the
  \<^verbatim>\<open>length\<close> of \<^verbatim>\<open>undefined\<close>, which throws, so the chain in \<^verbatim>\<open>run\<close> rejects with nobody
  to handle it and the final message is never printed. When the request gets no answer
  the handler in \<^verbatim>\<open>getRepos\<close> itself throws, reading the \<^verbatim>\<open>body\<close> of a response that
  the error does not have.
\<close>

theorem run_unhandled_after_listing_failure:
  "getRepos world_listing_404 opts_u state0 =
     (Fulfilled None,
      \<lparr>progressBar = \<lparr>curr = 0, total = 0\<rparr>,
       trace = [Got ''https://api.github.com/users/u/repos?type=all&per_page=100'',
                ConsoleError '' Fetching repository list failed.'',
                ConsoleError ''Not Found'']\<rparr>)
   \<and> handleRepos world_listing_404 opts_u None state0 = (Rejected (TypeError ''length''), state0)
   \<and> fst (run world_listing_404 opts_u state0) = UnhandledRejection (TypeError ''length'')
   \<and> ConsoleLog ''All done, thank you!'' \<notin> set (trace (snd (run world_listing_404 opts_u state0)))
   \<and> fst (getRepos world_offline opts_u state0) = Rejected (TypeError ''body'')
   \<and> fst (run world_offline opts_u state0) = UnhandledRejection (TypeError ''body'')"
  by code_simp

section \<open>parseJson\<close>

text \<open>
  C10. \<^verbatim>\<open>parseJson\<close> never throws: it returns the value that \<^verbatim>\<open>JSON.parse\<close> returns, and
  when \<^verbatim>\<open>JSON.parse\<close> throws it writes the error to the error channel and returns
  \<^verbatim>\<open>undefined\<close>.
\<close>

theorem parseJson_never_throws:
  "(\<forall>e. fst (parseJson JSON_parse text) \<noteq> Inl e)
   \<and> (\<forall>data. JSON_parse text = Inr data \<longrightarrow> parseJson JSON_parse text = (Inr (Some data), []))
   \<and> (\<forall>err. JSON_parse text = Inl err \<longrightarrow>
         parseJson JSON_parse text = (Inr None, [ConsoleError ('' Parsing JSON failed. '' @ err)]))"
  by (simp add: parseJson_def split: sum.splits)

theorem parseJson_never_throws_witness:
  "parseJson accept_empty_object ''{}'' = (Inr (Some ()), [])
   \<and> parseJson accept_empty_object ''{'' =
       (Inr None, [ConsoleError '' Parsing JSON failed. SyntaxError: Unexpected end of JSON input''])"
proof -
  have a: "accept_empty_object ''{}'' = Inr ()"
    and b: "accept_empty_object ''{'' = Inl ''SyntaxError: Unexpected end of JSON input''"
    by (simp_all add: accept_empty_object_def)
  from parseJson_never_throws [of accept_empty_object "''{}''"] a
  have 1: "parseJson accept_empty_object ''{}'' = (Inr (Some ()), [])" by blast
  from parseJson_never_throws [of accept_empty_object "''{''"] b
  have 2: "parseJson accept_empty_object ''{'' =
       (Inr None, [ConsoleError ('' Parsing JSON failed. '' @ ''SyntaxError: Unexpected end of JSON input'')])"
    by blast
  from 1 2 show ?thesis by simp
qed

end
